theory Spec2Isabelle
  imports
    Complex_Main
    "HOL-Library.Sublist"
    "HOL-Library.Char_ord"
    "HOL-Library.List_Lexorder"
    "HOL-Library.Product_Lexorder"
begin

section \<open>Navigation evaluation analysis: the model of \<open>navigation_eval_analysis.py\<close>\<close>

text \<open>
  The script is a straight-line notebook export. Its cells are modelled in source order:
  the merge of the hard-coded \<open>thinking_results\<close> block into the loaded \<open>eval_data\<close>,
  the classifier \<open>categorize_model\<close>, the flattened table \<open>results\<close>, the group-best
  selections \<open>family_best\<close> and \<open>company_best\<close>, the paired improvements
  \<open>thinking_improvements\<close> and the token table \<open>token_data\<close> with its \<open>efficiency\<close> column.

  Modelling decisions.
  \<^item> Strings are \<open>string\<close> (lists of 8-bit characters); model names are ASCII, and
    \<open>str.lower\<close> maps \<open>A\<close>..\<open>Z\<close> to \<open>a\<close>..\<open>z\<close> and leaves every other character alone.
  \<^item> A Python \<open>dict\<close> is an association list in insertion order with distinct keys, which is
    what \<open>json.load\<close> and a dict literal produce.
  \<^item> JSON numbers are exact rationals (\<open>rat\<close>). The rounding of binary64 arithmetic is not
    modelled; the one place where IEEE arithmetic yields a non-number (a pandas column
    division by zero) is modelled by the type \<open>fval\<close>.
  \<^item> Every \<open>raise\<close> of the script is a value \<open>Inl e\<close> of the sum type \<open>error + 'a\<close>.
\<close>

subsection \<open>Errors, dictionaries\<close>

datatype error = KeyError string | ZeroDivisionError

type_synonym 'v dict = "(string \<times> 'v) list"

text \<open>\<open>d[k]\<close>: raises \<open>KeyError\<close> when the key is missing.\<close>

definition getitem :: "'v dict \<Rightarrow> string \<Rightarrow> error + 'v" where
  "getitem d k = (case map_of d k of None \<Rightarrow> Inl (KeyError k) | Some v \<Rightarrow> Inr v)"

text \<open>\<open>d.get(k, default)\<close>, the default already evaluated by the caller.\<close>

definition dict_get :: "'v dict \<Rightarrow> string \<Rightarrow> 'v \<Rightarrow> 'v" where
  "dict_get d k dflt = (case map_of d k of None \<Rightarrow> dflt | Some v \<Rightarrow> v)"

text \<open>\<open>k in d\<close>.\<close>

definition has_key :: "'v dict \<Rightarrow> string \<Rightarrow> bool" where
  "has_key d k = (map_of d k \<noteq> None)"

text \<open>\<open>d[k] = v\<close>: an existing key keeps its position, a new key goes to the end.\<close>

fun dict_set :: "string \<Rightarrow> 'v \<Rightarrow> 'v dict \<Rightarrow> 'v dict" where
  "dict_set k v [] = [(k, v)]"
| "dict_set k v (p # d) = (if fst p = k then (k, v) # d else p # dict_set k v d)"

text \<open>\<open>d.update(other)\<close>: the items of \<open>other\<close> are stored one by one, in order.\<close>

fun dict_update :: "'v dict \<Rightarrow> 'v dict \<Rightarrow> 'v dict" where
  "dict_update d [] = d"
| "dict_update d (p # other) = dict_update (dict_set (fst p) (snd p) d) other"

subsection \<open>String operations\<close>

definition lower_char :: "char \<Rightarrow> char" where
  "lower_char c =
     (case map_of (zip ''ABCDEFGHIJKLMNOPQRSTUVWXYZ'' ''abcdefghijklmnopqrstuvwxyz'') c of
        Some d \<Rightarrow> d
      | None \<Rightarrow> c)"

text \<open>\<open>s.lower()\<close>.\<close>

definition lower :: "string \<Rightarrow> string" where
  "lower s = map lower_char s"

text \<open>\<open>s.startswith(p)\<close>.\<close>

fun startswith :: "string \<Rightarrow> string \<Rightarrow> bool" where
  "startswith s [] = True"
| "startswith [] (p # ps) = False"
| "startswith (c # cs) (p # ps) = (c = p \<and> startswith cs ps)"

text \<open>\<open>sub in s\<close> on strings: \<open>sub\<close> occurs in \<open>s\<close> as a contiguous block.\<close>

fun str_in :: "string \<Rightarrow> string \<Rightarrow> bool" where
  "str_in sub [] = (sub = [])"
| "str_in sub (c # cs) = (startswith (c # cs) sub \<or> str_in sub cs)"

text \<open>\<open>any(bs)\<close>.\<close>

fun py_any :: "bool list \<Rightarrow> bool" where
  "py_any [] = False"
| "py_any (b # bs) = (b \<or> py_any bs)"

text \<open>
  \<open>s.replace(old, new)\<close> for a non-empty \<open>old\<close>: the occurrences are replaced from the
  left, without overlap. The script only calls it with \<open>old = '--thinking'\<close>; for an
  empty \<open>old\<close> Python puts \<open>new\<close> before every character and at the end.
\<close>

function str_replace :: "string \<Rightarrow> string \<Rightarrow> string \<Rightarrow> string" where
  "str_replace old new s =
     (if old = [] then new @ concat (map (\<lambda>c. c # new) s)
      else if s = [] then []
      else if startswith s old then new @ str_replace old new (drop (length old) s)
      else hd s # str_replace old new (tl s))"
  by pat_completeness auto
termination
  by (relation "measure (\<lambda>(old, new, s). length s)") (auto simp: neq_Nil_conv)

subsection \<open>The classifier\<close>

text \<open>\<open>categorize_model\<close>, lines 74 to 125: the triple (family, company, is_thinking).\<close>

definition categorize_model :: "string \<Rightarrow> string \<times> string \<times> bool" where
  "categorize_model model_name0 =
     (let model_name = lower model_name0;
          is_thinking = py_any
            [str_in ''--thinking'' model_name,
             startswith model_name ''o3'' \<or> startswith model_name ''o4'',
             str_in ''deepseek-r1'' model_name,
             str_in ''grok'' model_name,
             str_in ''gemini'' model_name];
          family =
            (if str_in ''o3'' model_name \<or> str_in ''o4'' model_name then ''o-series''
             else if str_in ''gpt'' model_name then ''gpt''
             else if str_in ''claude'' model_name then ''claude''
             else if str_in ''grok'' model_name then ''grok''
             else if str_in ''deepseek'' model_name then ''deepseek''
             else if str_in ''gemini'' model_name then ''gemini''
             else if str_in ''llama'' model_name then ''llama''
             else if str_in ''kimi'' model_name then ''kimi''
             else ''other'');
          company =
            (if py_any (map (\<lambda>x. str_in x model_name) [''gpt'', ''o3'', ''o4'']) then ''openai''
             else if str_in ''claude'' model_name then ''anthropic''
             else if str_in ''gemini'' model_name then ''google''
             else if str_in ''grok'' model_name then ''x-ai''
             else if str_in ''deepseek'' model_name then ''deepseek''
             else if str_in ''kimi'' model_name then ''moonshot''
             else if str_in ''llama'' model_name then ''meta''
             else ''other'')
      in (family, company, is_thinking))"

subsection \<open>The loaded data and the supplemental block\<close>

text \<open>
  A metrics record is the JSON object of one (dataset, model) pair; \<open>eval_data\<close> maps a
  dataset name to a dictionary from model names to metrics records.
\<close>

type_synonym metrics = "rat dict"
type_synonym eval_data = "metrics dict dict"

text \<open>The literal \<open>thinking_results\<close>, lines 32 to 61.\<close>

definition thinking_results :: eval_data where
  "thinking_results =
     [(''sf'',
        [(''claude-3-7-sonnet-20250219--thinking'',
            [(''totalSamples'', 26), (''exactlyCorrect'', 2), (''mostlyCorrect'', 2),
             (''exactAccuracy'', 0.077), (''mostlyAccuracy'', 0.077), (''totalAccuracy'', 0.154)]),
         (''claude-opus-4-20250514--thinking'',
            [(''totalSamples'', 50), (''exactlyCorrect'', 8), (''mostlyCorrect'', 3),
             (''exactAccuracy'', 0.16), (''mostlyAccuracy'', 0.06), (''totalAccuracy'', 0.22)]),
         (''claude-sonnet-4-20250514--thinking'',
            [(''totalSamples'', 50), (''exactlyCorrect'', 4), (''mostlyCorrect'', 4),
             (''exactAccuracy'', 0.08), (''mostlyAccuracy'', 0.08), (''totalAccuracy'', 0.16)])]),
      (''ca'',
        [(''claude-3-7-sonnet-20250219--thinking'',
            [(''totalSamples'', 50), (''exactlyCorrect'', 19), (''mostlyCorrect'', 0),
             (''exactAccuracy'', 0.38), (''mostlyAccuracy'', 0.0), (''totalAccuracy'', 0.38)]),
         (''claude-opus-4-20250514--thinking'',
            [(''totalSamples'', 50), (''exactlyCorrect'', 26), (''mostlyCorrect'', 1),
             (''exactAccuracy'', 0.52), (''mostlyAccuracy'', 0.02), (''totalAccuracy'', 0.54)]),
         (''claude-sonnet-4-20250514--thinking'',
            [(''totalSamples'', 50), (''exactlyCorrect'', 21), (''mostlyCorrect'', 0),
             (''exactAccuracy'', 0.42), (''mostlyAccuracy'', 0.0), (''totalAccuracy'', 0.42)])])]"

text \<open>
  Lines 64 and 65: \<open>for dataset in ['sf', 'ca']: eval_data[dataset].update(thinking_results[dataset])\<close>.
  The subscript on \<open>eval_data\<close> is evaluated first and raises \<open>KeyError\<close> on a missing
  dataset; the inner dictionary is updated in place, so the dataset keeps its position.
\<close>

fun merge_loop :: "string list \<Rightarrow> eval_data \<Rightarrow> error + eval_data" where
  "merge_loop [] ed = Inr ed"
| "merge_loop (ds # rest) ed =
     (case getitem ed ds of
        Inl e \<Rightarrow> Inl e
      | Inr d \<Rightarrow>
          (case getitem thinking_results ds of
             Inl e \<Rightarrow> Inl e
           | Inr t \<Rightarrow> merge_loop rest (dict_set ds (dict_update d t) ed)))"

definition merge_thinking :: "eval_data \<Rightarrow> error + eval_data" where
  "merge_thinking ed = merge_loop [''sf'', ''ca''] ed"

subsection \<open>The flattened table\<close>

text \<open>One row of \<open>results\<close> (lines 144 to 154), that is one row of the data frame \<open>df\<close>.\<close>

record row =
  model :: string
  dataset :: string
  family :: string
  company :: string
  is_thinking :: bool
  exact_accuracy :: rat
  mostly_accuracy :: rat
  total_accuracy :: rat
  total_samples :: rat

text \<open>
  \<open>data.get('totalAccuracy', data['exactAccuracy'] + data['mostlyAccuracy'])\<close>, lines 152
  and 472. Python evaluates the default before the call, so both subscripts are evaluated,
  and can raise, even when \<open>totalAccuracy\<close> is stored.
\<close>

definition get_total_accuracy :: "metrics \<Rightarrow> error + rat" where
  "get_total_accuracy data =
     (case getitem data ''exactAccuracy'' of
        Inl e \<Rightarrow> Inl e
      | Inr ex \<Rightarrow>
          (case getitem data ''mostlyAccuracy'' of
             Inl e \<Rightarrow> Inl e
           | Inr mo \<Rightarrow> Inr (dict_get data ''totalAccuracy'' (ex + mo))))"

text \<open>The body of the inner loop, lines 143 to 154; the entries are evaluated in order.\<close>

definition results_row :: "string \<Rightarrow> string \<Rightarrow> metrics \<Rightarrow> error + row" where
  "results_row ds m data =
     (case categorize_model m of
        (fam, co, th) \<Rightarrow>
          (case getitem data ''exactAccuracy'' of
             Inl e \<Rightarrow> Inl e
           | Inr ex \<Rightarrow>
               (case getitem data ''mostlyAccuracy'' of
                  Inl e \<Rightarrow> Inl e
                | Inr mo \<Rightarrow>
                    (case get_total_accuracy data of
                       Inl e \<Rightarrow> Inl e
                     | Inr tot \<Rightarrow>
                         (case getitem data ''totalSamples'' of
                            Inl e \<Rightarrow> Inl e
                          | Inr n \<Rightarrow>
                              Inr \<lparr>model = m, dataset = ds, family = fam, company = co,
                                   is_thinking = th, exact_accuracy = ex,
                                   mostly_accuracy = mo, total_accuracy = tot,
                                   total_samples = n\<rparr>)))))"

text \<open>\<open>for model, data in eval_data[dataset].items()\<close>.\<close>

fun results_items :: "string \<Rightarrow> metrics dict \<Rightarrow> error + row list" where
  "results_items ds [] = Inr []"
| "results_items ds (p # rest) =
     (case results_row ds (fst p) (snd p) of
        Inl e \<Rightarrow> Inl e
      | Inr r \<Rightarrow>
          (case results_items ds rest of
             Inl e \<Rightarrow> Inl e
           | Inr rs \<Rightarrow> Inr (r # rs)))"

text \<open>\<open>for dataset in ['sf', 'ca']\<close>, lines 141 and 142.\<close>

fun results_loop :: "string list \<Rightarrow> eval_data \<Rightarrow> error + row list" where
  "results_loop [] ed = Inr []"
| "results_loop (ds # rest) ed =
     (case getitem ed ds of
        Inl e \<Rightarrow> Inl e
      | Inr d \<Rightarrow>
          (case results_items ds d of
             Inl e \<Rightarrow> Inl e
           | Inr rs \<Rightarrow>
               (case results_loop rest ed of
                  Inl e \<Rightarrow> Inl e
                | Inr rs' \<Rightarrow> Inr (rs @ rs'))))"

definition results :: "eval_data \<Rightarrow> error + row list" where
  "results ed = results_loop [''sf'', ''ca''] ed"

subsection \<open>Group-best\<close>

text \<open>
  \<open>df.loc[df.groupby(keys)['total_accuracy'].idxmax()]\<close>, lines 184 and 337. The data
  frame has the default index \<open>0, 1, ...\<close>. \<open>groupby\<close> lists the distinct group keys in
  sorted order; the series of a group holds the index labels and values of its rows in
  table order; \<open>idxmax\<close> is the label of the first occurrence of the maximum, found by a
  scan that replaces the running best only by a strictly greater value; \<open>loc\<close> fetches
  the row of a label and raises on a label the frame does not have.
\<close>

definition group_keys :: "(row \<Rightarrow> 'k::linorder) \<Rightarrow> row list \<Rightarrow> 'k list" where
  "group_keys key df = sort (remdups (map key df))"

definition group_series :: "(row \<Rightarrow> 'k) \<Rightarrow> 'k \<Rightarrow> row list \<Rightarrow> (nat \<times> rat) list" where
  "group_series key g df =
     map (\<lambda>p. (fst p, total_accuracy (snd p)))
       (filter (\<lambda>p. key (snd p) = g) (enumerate 0 df))"

fun idxmax_scan :: "nat \<times> rat \<Rightarrow> (nat \<times> rat) list \<Rightarrow> nat \<times> rat" where
  "idxmax_scan best [] = best"
| "idxmax_scan best (p # ps) = idxmax_scan (if snd best < snd p then p else best) ps"

definition idxmax :: "(nat \<times> rat) list \<Rightarrow> nat option" where
  "idxmax s = (case s of [] \<Rightarrow> None | p # ps \<Rightarrow> Some (fst (idxmax_scan p ps)))"

definition loc :: "row list \<Rightarrow> nat \<Rightarrow> row option" where
  "loc df i = (if i < length df then Some (df ! i) else None)"

definition best_of_group :: "(row \<Rightarrow> 'k) \<Rightarrow> row list \<Rightarrow> 'k \<Rightarrow> row option" where
  "best_of_group key df g =
     (case idxmax (group_series key g df) of None \<Rightarrow> None | Some i \<Rightarrow> loc df i)"

text \<open>\<open>None\<close> stands for the exception of \<open>idxmax\<close> on an empty group or of \<open>loc\<close>.\<close>

definition group_best :: "(row \<Rightarrow> 'k::linorder) \<Rightarrow> row list \<Rightarrow> row list option" where
  "group_best key df = those (map (best_of_group key df) (group_keys key df))"

definition family_best :: "row list \<Rightarrow> row list option" where
  "family_best df = group_best (\<lambda>r. (dataset r, family r)) df"

definition company_best :: "row list \<Rightarrow> row list option" where
  "company_best df = group_best (\<lambda>r. (dataset r, company r)) df"

subsection \<open>Paired improvement\<close>

record improvement_row =
  imp_dataset :: string
  base_model :: string
  base_accuracy :: rat
  thinking_accuracy :: rat
  improvement :: rat
  relative_improvement :: rat

text \<open>
  Division by zero is an error value: Python's \<open>/\<close> raises \<open>ZeroDivisionError\<close> on a zero
  divisor (a numpy scalar warns and yields an infinity or NaN instead). HOL's \<open>/\<close> returns
  0 there, which would hide the event, so the check is written out.
\<close>

definition py_div :: "rat \<Rightarrow> rat \<Rightarrow> error + rat" where
  "py_div a b = (if b = 0 then Inl ZeroDivisionError else Inr (a / b))"

text \<open>\<open>improvement / base_acc if base_acc > 0 else 0\<close>, line 293.\<close>

definition relative_of :: "rat \<Rightarrow> rat \<Rightarrow> error + rat" where
  "relative_of imp base_acc = (if base_acc > 0 then py_div imp base_acc else Inr 0)"

text \<open>\<open>df[(df['dataset'] == dataset) & (df['model'] == m)]\<close>.\<close>

definition select_rows :: "row list \<Rightarrow> string \<Rightarrow> string \<Rightarrow> row list" where
  "select_rows df ds m = filter (\<lambda>r. dataset r = ds \<and> model r = m) df"

text \<open>
  The body of the loop over \<open>base_model\<close>, lines 276 to 294: \<open>None\<close> when one of the two
  versions is absent, otherwise the row built from the first row of each selection.
\<close>

definition improvement_of :: "row list \<Rightarrow> string \<Rightarrow> string \<Rightarrow> error + improvement_row option" where
  "improvement_of df ds base =
     (let thinking_version = base @ ''--thinking'';
          base_data = select_rows df ds base;
          thinking_data = select_rows df ds thinking_version
      in case (base_data, thinking_data) of
           (b # _, t # _) \<Rightarrow>
             (let base_acc = total_accuracy b;
                  thinking_acc = total_accuracy t;
                  imp = thinking_acc - base_acc
              in case relative_of imp base_acc of
                   Inl e \<Rightarrow> Inl e
                 | Inr rel \<Rightarrow>
                     Inr (Some \<lparr>imp_dataset = ds, base_model = base,
                                base_accuracy = base_acc, thinking_accuracy = thinking_acc,
                                improvement = imp, relative_improvement = rel\<rparr>))
         | _ \<Rightarrow> Inr None)"

text \<open>
  \<open>set(df[df['dataset'] == dataset]['model'].str.replace('--thinking', ''))\<close>, line 273.
  Python iterates a set in an order it does not specify; the model lists the distinct
  names in order of first appearance, and no statement below depends on that order.
\<close>

definition models_in_dataset :: "row list \<Rightarrow> string \<Rightarrow> string list" where
  "models_in_dataset df ds =
     remdups (map (\<lambda>r. str_replace ''--thinking'' [] (model r))
               (filter (\<lambda>r. dataset r = ds) df))"

fun improvements_models :: "row list \<Rightarrow> string \<Rightarrow> string list \<Rightarrow> error + improvement_row list" where
  "improvements_models df ds [] = Inr []"
| "improvements_models df ds (base # rest) =
     (case improvement_of df ds base of
        Inl e \<Rightarrow> Inl e
      | Inr r \<Rightarrow>
          (case improvements_models df ds rest of
             Inl e \<Rightarrow> Inl e
           | Inr rs \<Rightarrow> Inr ((case r of None \<Rightarrow> [] | Some x \<Rightarrow> [x]) @ rs)))"

fun improvements_loop :: "row list \<Rightarrow> string list \<Rightarrow> error + improvement_row list" where
  "improvements_loop df [] = Inr []"
| "improvements_loop df (ds # rest) =
     (case improvements_models df ds (models_in_dataset df ds) of
        Inl e \<Rightarrow> Inl e
      | Inr rs \<Rightarrow>
          (case improvements_loop df rest of
             Inl e \<Rightarrow> Inl e
           | Inr rs' \<Rightarrow> Inr (rs @ rs')))"

definition thinking_improvements :: "row list \<Rightarrow> error + improvement_row list" where
  "thinking_improvements df = improvements_loop df [''sf'', ''ca'']"

subsection \<open>Token efficiency\<close>

record token_row =
  tok_model :: string
  tok_dataset :: string
  tok_family :: string
  tok_is_thinking :: bool
  avg_tokens :: rat
  tok_total_accuracy :: rat

text \<open>The body of the loop of lines 463 to 473: \<open>None\<close> when the record has no token count.\<close>

definition token_row_of :: "string \<Rightarrow> string \<Rightarrow> metrics \<Rightarrow> error + token_row option" where
  "token_row_of ds m data =
     (if has_key data ''avgOutputTokens'' then
        (case categorize_model m of
           (fam, co, th) \<Rightarrow>
             (case getitem data ''avgOutputTokens'' of
                Inl e \<Rightarrow> Inl e
              | Inr tk \<Rightarrow>
                  (case get_total_accuracy data of
                     Inl e \<Rightarrow> Inl e
                   | Inr tot \<Rightarrow>
                       Inr (Some \<lparr>tok_model = m, tok_dataset = ds, tok_family = fam,
                                  tok_is_thinking = th, avg_tokens = tk,
                                  tok_total_accuracy = tot\<rparr>))))
      else Inr None)"

fun token_items :: "string \<Rightarrow> metrics dict \<Rightarrow> error + token_row list" where
  "token_items ds [] = Inr []"
| "token_items ds (p # rest) =
     (case token_row_of ds (fst p) (snd p) of
        Inl e \<Rightarrow> Inl e
      | Inr r \<Rightarrow>
          (case token_items ds rest of
             Inl e \<Rightarrow> Inl e
           | Inr rs \<Rightarrow> Inr ((case r of None \<Rightarrow> [] | Some x \<Rightarrow> [x]) @ rs)))"

fun token_loop :: "string list \<Rightarrow> eval_data \<Rightarrow> error + token_row list" where
  "token_loop [] ed = Inr []"
| "token_loop (ds # rest) ed =
     (case getitem ed ds of
        Inl e \<Rightarrow> Inl e
      | Inr d \<Rightarrow>
          (case token_items ds d of
             Inl e \<Rightarrow> Inl e
           | Inr rs \<Rightarrow>
               (case token_loop rest ed of
                  Inl e \<Rightarrow> Inl e
                | Inr rs' \<Rightarrow> Inr (rs @ rs'))))"

definition token_data :: "eval_data \<Rightarrow> error + token_row list" where
  "token_data ed = token_loop [''sf'', ''ca''] ed"

text \<open>
  A pandas float column divides elementwise by IEEE rules and never raises: a zero
  divisor gives an infinity, or NaN for \<open>0 / 0\<close>; multiplying those by 1000 keeps them.
\<close>

datatype fval = Fin rat | PosInf | NegInf | NaN

definition pd_truediv :: "rat \<Rightarrow> rat \<Rightarrow> fval" where
  "pd_truediv a b =
     (if b \<noteq> 0 then Fin (a / b)
      else if a = 0 then NaN
      else if 0 < a then PosInf else NegInf)"

definition pd_mul :: "fval \<Rightarrow> rat \<Rightarrow> fval" where
  "pd_mul v c =
     (case v of
        Fin x \<Rightarrow> Fin (x * c)
      | PosInf \<Rightarrow> (if c = 0 then NaN else if 0 < c then PosInf else NegInf)
      | NegInf \<Rightarrow> (if c = 0 then NaN else if 0 < c then NegInf else PosInf)
      | NaN \<Rightarrow> NaN)"

text \<open>\<open>token_df['total_accuracy'] / token_df['avg_tokens'] * 1000\<close>, line 484.\<close>

definition efficiency :: "token_row \<Rightarrow> fval" where
  "efficiency t = pd_mul (pd_truediv (tok_total_accuracy t) (avg_tokens t)) 1000"

subsection \<open>The script\<close>

text \<open>
  The cells run in sequence with no \<open>try\<close> around any of them: the first exception ends
  the process, and nothing after it is computed.
\<close>

record report =
  rep_df :: "row list"
  rep_family_best :: "row list"
  rep_improvements :: "improvement_row list"
  rep_company_best :: "row list"
  rep_tokens :: "token_row list"

datatype failure = Raised error | PandasError

definition script :: "eval_data \<Rightarrow> failure + report" where
  "script loaded =
     (case merge_thinking loaded of
        Inl e \<Rightarrow> Inl (Raised e)
      | Inr ed \<Rightarrow>
          (case results ed of
             Inl e \<Rightarrow> Inl (Raised e)
           | Inr df \<Rightarrow>
               (case family_best df of
                  None \<Rightarrow> Inl PandasError
                | Some fb \<Rightarrow>
                    (case thinking_improvements df of
                       Inl e \<Rightarrow> Inl (Raised e)
                     | Inr imps \<Rightarrow>
                         (case company_best df of
                            None \<Rightarrow> Inl PandasError
                          | Some cb \<Rightarrow>
                              (case token_data ed of
                                 Inl e \<Rightarrow> Inl (Raised e)
                               | Inr toks \<Rightarrow>
                                   Inr \<lparr>rep_df = df, rep_family_best = fb,
                                        rep_improvements = imps, rep_company_best = cb,
                                        rep_tokens = toks\<rparr>))))))"

section \<open>Properties\<close>

subsection \<open>The classifier\<close>

lemma startswith_prefix: "startswith s p \<longleftrightarrow> prefix p s"
  by (induction s p rule: startswith.induct) auto

lemma str_in_sublist: "str_in sub s \<longleftrightarrow> sublist sub s"
  by (induction s) (auto simp: startswith_prefix sublist_Cons_right)

lemma lower_append: "lower (xs @ ys) = lower xs @ lower ys"
  by (simp add: lower_def)

lemma sublist_lower: "sublist xs ys \<Longrightarrow> sublist (lower xs) (lower ys)"
proof -
  assume "sublist xs ys"
  then obtain ps ss where "ys = ps @ xs @ ss" unfolding sublist_def by blast
  then have "lower ys = lower ps @ lower xs @ lower ss" by (simp add: lower_append)
  then show ?thesis unfolding sublist_def by blast
qed

lemma lower_thinking_marker: "lower ''--thinking'' = ''--thinking''"
  by (simp add: lower_def lower_char_def)

lemma is_thinking_unfold:
  "snd (snd (categorize_model n)) =
     (str_in ''--thinking'' (lower n) \<or> startswith (lower n) ''o3'' \<or> startswith (lower n) ''o4''
      \<or> str_in ''deepseek-r1'' (lower n) \<or> str_in ''grok'' (lower n) \<or> str_in ''gemini'' (lower n))"
  by (simp add: categorize_model_def Let_def)

text \<open>
  Claim C1. On the lower-cased name, \<open>is_thinking\<close> holds exactly when the name contains
  \<open>--thinking\<close>, or starts with \<open>o3\<close> or \<open>o4\<close>, or contains \<open>deepseek-r1\<close>, \<open>grok\<close> or
  \<open>gemini\<close>. In particular every name that contains the marker \<open>--thinking\<close> is classified
  as thinking.
\<close>

theorem categorize_model_is_thinking:
  "snd (snd (categorize_model n)) =
     (sublist ''--thinking'' (lower n) \<or> prefix ''o3'' (lower n) \<or> prefix ''o4'' (lower n)
      \<or> sublist ''deepseek-r1'' (lower n) \<or> sublist ''grok'' (lower n)
      \<or> sublist ''gemini'' (lower n))
   \<and> (sublist ''--thinking'' n \<longrightarrow> snd (snd (categorize_model n)))"
proof (intro conjI impI)
  show eq: "snd (snd (categorize_model n)) =
     (sublist ''--thinking'' (lower n) \<or> prefix ''o3'' (lower n) \<or> prefix ''o4'' (lower n)
      \<or> sublist ''deepseek-r1'' (lower n) \<or> sublist ''grok'' (lower n)
      \<or> sublist ''gemini'' (lower n))"
    unfolding is_thinking_unfold str_in_sublist startswith_prefix ..
  assume "sublist ''--thinking'' n"
  then have "sublist ''--thinking'' (lower n)"
    using sublist_lower [of "''--thinking''" n] by (simp only: lower_thinking_marker)
  then show "snd (snd (categorize_model n))"
    unfolding eq by blast
qed

theorem categorize_model_is_thinking_witness:
  "sublist ''--thinking'' ''Claude-Opus-4-20250514--thinking''
   \<and> snd (snd (categorize_model ''Claude-Opus-4-20250514--thinking''))"
proof -
  have h: "sublist ''--thinking'' ''Claude-Opus-4-20250514--thinking''"
    unfolding str_in_sublist [symmetric] by simp
  with categorize_model_is_thinking [of "''Claude-Opus-4-20250514--thinking''"]
  show ?thesis by blast
qed

lemma family_unfold:
  "fst (categorize_model n) =
     (if str_in ''o3'' (lower n) \<or> str_in ''o4'' (lower n) then ''o-series''
      else if str_in ''gpt'' (lower n) then ''gpt''
      else if str_in ''claude'' (lower n) then ''claude''
      else if str_in ''grok'' (lower n) then ''grok''
      else if str_in ''deepseek'' (lower n) then ''deepseek''
      else if str_in ''gemini'' (lower n) then ''gemini''
      else if str_in ''llama'' (lower n) then ''llama''
      else if str_in ''kimi'' (lower n) then ''kimi''
      else ''other'')"
  by (simp add: categorize_model_def Let_def)

lemma company_unfold:
  "fst (snd (categorize_model n)) =
     (if str_in ''gpt'' (lower n) \<or> str_in ''o3'' (lower n) \<or> str_in ''o4'' (lower n) then ''openai''
      else if str_in ''claude'' (lower n) then ''anthropic''
      else if str_in ''gemini'' (lower n) then ''google''
      else if str_in ''grok'' (lower n) then ''x-ai''
      else if str_in ''deepseek'' (lower n) then ''deepseek''
      else if str_in ''kimi'' (lower n) then ''moonshot''
      else if str_in ''llama'' (lower n) then ''meta''
      else ''other'')"
  by (simp add: categorize_model_def Let_def)

lemma deepseek_in_deepseek_r1: "sublist ''deepseek'' ''deepseek-r1''"
  unfolding str_in_sublist [symmetric] by simp

text \<open>
  Claim C4. The classifier has no error path: on every string the family and the company
  are members of the two fixed enumerations, the empty string is classified as
  \<open>(other, other, False)\<close>, and so is every name whose lower-cased form contains none of
  the keywords of the thinking, family and company tables.
\<close>

theorem categorize_model_total:
  "fst (categorize_model n) \<in>
     {''o-series'', ''gpt'', ''claude'', ''grok'', ''deepseek'', ''gemini'', ''llama'', ''kimi'', ''other''}
   \<and> fst (snd (categorize_model n)) \<in>
     {''openai'', ''anthropic'', ''google'', ''x-ai'', ''deepseek'', ''moonshot'', ''meta'', ''other''}
   \<and> categorize_model [] = (''other'', ''other'', False)
   \<and> ((\<forall>k \<in> set [''--thinking'', ''o3'', ''o4'', ''gpt'', ''claude'', ''grok'', ''deepseek'',
                    ''gemini'', ''llama'', ''kimi'']. \<not> sublist k (lower n))
        \<longrightarrow> categorize_model n = (''other'', ''other'', False))"
proof (intro conjI impI)
  show "fst (categorize_model n) \<in>
     {''o-series'', ''gpt'', ''claude'', ''grok'', ''deepseek'', ''gemini'', ''llama'', ''kimi'', ''other''}"
    unfolding family_unfold by simp
  show "fst (snd (categorize_model n)) \<in>
     {''openai'', ''anthropic'', ''google'', ''x-ai'', ''deepseek'', ''moonshot'', ''meta'', ''other''}"
    unfolding company_unfold by simp
  show "categorize_model [] = (''other'', ''other'', False)"
    by (simp add: categorize_model_def lower_def)
  assume a: "\<forall>k \<in> set [''--thinking'', ''o3'', ''o4'', ''gpt'', ''claude'', ''grok'', ''deepseek'',
                    ''gemini'', ''llama'', ''kimi'']. \<not> sublist k (lower n)"
  have r1: "\<not> sublist ''deepseek-r1'' (lower n)"
    using a sublist_order.order_trans [OF deepseek_in_deepseek_r1, of "lower n"] by auto
  have p: "\<not> prefix ''o3'' (lower n)" "\<not> prefix ''o4'' (lower n)"
    using a by (auto dest: prefix_imp_sublist)
  have "fst (categorize_model n) = ''other''"
    unfolding family_unfold str_in_sublist using a by simp
  moreover have "fst (snd (categorize_model n)) = ''other''"
    unfolding company_unfold str_in_sublist using a by simp
  moreover have "snd (snd (categorize_model n)) = False"
    unfolding is_thinking_unfold str_in_sublist startswith_prefix using a r1 p by simp
  ultimately show "categorize_model n = (''other'', ''other'', False)"
    by (metis prod.collapse)
qed

theorem categorize_model_total_witness:
  "list_all (\<lambda>k. \<not> sublist k (lower ''Mistral-Large''))
     [''--thinking'', ''o3'', ''o4'', ''gpt'', ''claude'', ''grok'', ''deepseek'',
      ''gemini'', ''llama'', ''kimi'']
   \<and> categorize_model ''Mistral-Large'' = (''other'', ''other'', False)"
proof -
  have h: "list_all (\<lambda>k. \<not> sublist k (lower ''Mistral-Large''))
     [''--thinking'', ''o3'', ''o4'', ''gpt'', ''claude'', ''grok'', ''deepseek'',
      ''gemini'', ''llama'', ''kimi'']"
    unfolding str_in_sublist [symmetric] by (simp add: lower_def lower_char_def)
  then have "\<forall>k \<in> set [''--thinking'', ''o3'', ''o4'', ''gpt'', ''claude'', ''grok'',
      ''deepseek'', ''gemini'', ''llama'', ''kimi'']. \<not> sublist k (lower ''Mistral-Large'')"
    unfolding list_all_iff .
  with categorize_model_total [of "''Mistral-Large''"] h show ?thesis by blast
qed

text \<open>
  Claim C8. A name whose lower-cased form contains \<open>o3\<close> or \<open>o4\<close> without starting with
  either, and contains none of \<open>--thinking\<close>, \<open>deepseek-r1\<close>, \<open>grok\<close>, \<open>gemini\<close>, gets the
  family \<open>o-series\<close> and the company \<open>openai\<close>, whatever other keyword it contains, and is
  not classified as thinking: the thinking test asks for a prefix where the family and
  company tests ask for a substring.
\<close>

theorem categorize_model_o_series_asymmetry:
  assumes "sublist ''o3'' (lower n) \<or> sublist ''o4'' (lower n)"
    and "\<not> prefix ''o3'' (lower n)" and "\<not> prefix ''o4'' (lower n)"
    and "\<not> sublist ''--thinking'' (lower n)" and "\<not> sublist ''deepseek-r1'' (lower n)"
    and "\<not> sublist ''grok'' (lower n)" and "\<not> sublist ''gemini'' (lower n)"
  shows "categorize_model n = (''o-series'', ''openai'', False)"
proof -
  have "fst (categorize_model n) = ''o-series''"
    unfolding family_unfold str_in_sublist using assms(1) by simp
  moreover have "fst (snd (categorize_model n)) = ''openai''"
    unfolding company_unfold str_in_sublist using assms(1) by auto
  moreover have "snd (snd (categorize_model n)) = False"
    unfolding is_thinking_unfold str_in_sublist startswith_prefix using assms(2-) by simp
  ultimately show ?thesis
    by (metis prod.collapse)
qed

theorem categorize_model_o_series_asymmetry_witness:
  "(sublist ''o3'' (lower ''Claude-O4-preview'') \<or> sublist ''o4'' (lower ''Claude-O4-preview''))
   \<and> \<not> prefix ''o3'' (lower ''Claude-O4-preview'')
   \<and> \<not> prefix ''o4'' (lower ''Claude-O4-preview'')
   \<and> \<not> sublist ''--thinking'' (lower ''Claude-O4-preview'')
   \<and> \<not> sublist ''deepseek-r1'' (lower ''Claude-O4-preview'')
   \<and> \<not> sublist ''grok'' (lower ''Claude-O4-preview'')
   \<and> \<not> sublist ''gemini'' (lower ''Claude-O4-preview'')
   \<and> categorize_model ''Claude-O4-preview'' = (''o-series'', ''openai'', False)"
proof -
  have l: "lower ''Claude-O4-preview'' = ''claude-o4-preview''"
    by (simp add: lower_def lower_char_def)
  have h1: "sublist ''o3'' (lower ''Claude-O4-preview'') \<or> sublist ''o4'' (lower ''Claude-O4-preview'')"
    unfolding l str_in_sublist [symmetric] by simp
  have h2: "\<not> prefix ''o3'' (lower ''Claude-O4-preview'')"
    unfolding l startswith_prefix [symmetric] by simp
  have h3: "\<not> prefix ''o4'' (lower ''Claude-O4-preview'')"
    unfolding l startswith_prefix [symmetric] by simp
  have h4: "\<not> sublist ''--thinking'' (lower ''Claude-O4-preview'')"
    unfolding l str_in_sublist [symmetric] by simp
  have h5: "\<not> sublist ''deepseek-r1'' (lower ''Claude-O4-preview'')"
    unfolding l str_in_sublist [symmetric] by simp
  have h6: "\<not> sublist ''grok'' (lower ''Claude-O4-preview'')"
    unfolding l str_in_sublist [symmetric] by simp
  have h7: "\<not> sublist ''gemini'' (lower ''Claude-O4-preview'')"
    unfolding l str_in_sublist [symmetric] by simp
  from categorize_model_o_series_asymmetry [OF h1 h2 h3 h4 h5 h6 h7] h1 h2 h3 h4 h5 h6 h7
  show ?thesis by blast
qed

subsection \<open>Dictionaries and the merge\<close>

lemma map_of_dict_set: "map_of (dict_set k v d) = (map_of d)(k \<mapsto> v)"
  by (induction d) (auto simp: fun_eq_iff)

lemma map_of_dict_update:
  "map_of (dict_update d t) k =
     (case map_of (rev t) k of None \<Rightarrow> map_of d k | Some v \<Rightarrow> Some v)"
  by (induction t arbitrary: d) (auto simp: map_of_dict_set map_add_def split: option.splits)

lemma getitem_Inr: "getitem d k = Inr v \<longleftrightarrow> map_of d k = Some v"
  by (simp add: getitem_def split: option.splits)

lemma getitem_Inl: "getitem d k = Inl e \<longleftrightarrow> map_of d k = None \<and> e = KeyError k"
  by (auto simp: getitem_def split: option.splits)

lemma getitem_dict_set: "getitem (dict_set k v d) k' = (if k' = k then Inr v else getitem d k')"
  by (simp add: getitem_def map_of_dict_set)

lemma thinking_results_sf:
  "getitem thinking_results ''sf'' = Inr (snd (thinking_results ! 0))"
  by (simp add: getitem_def thinking_results_def)

lemma thinking_results_ca:
  "getitem thinking_results ''ca'' = Inr (snd (thinking_results ! 1))"
  by (simp add: getitem_def thinking_results_def)

lemma merge_thinking_eq:
  "merge_thinking ed =
     (case map_of ed ''sf'' of
        None \<Rightarrow> Inl (KeyError ''sf'')
      | Some dsf \<Rightarrow>
          (case map_of ed ''ca'' of
             None \<Rightarrow> Inl (KeyError ''ca'')
           | Some dca \<Rightarrow>
               Inr (dict_set ''ca'' (dict_update dca (snd (thinking_results ! 1)))
                     (dict_set ''sf'' (dict_update dsf (snd (thinking_results ! 0))) ed))))"
  unfolding merge_thinking_def
  by (simp add: thinking_results_sf thinking_results_ca getitem_dict_set
      split: option.splits sum.splits)
    (auto simp: getitem_def split: option.splits)


lemma has_key_iff: "has_key d k \<longleftrightarrow> map_of d k \<noteq> None"
  by (simp add: has_key_def)

lemma script_merge_error: "merge_thinking loaded = Inl e \<Longrightarrow> script loaded = Inl (Raised e)"
  by (simp add: script_def)

text \<open>
  Claim C7. The merge subscripts the loaded data with \<open>sf\<close> and then \<open>ca\<close>. When \<open>sf\<close> is
  missing, or \<open>sf\<close> is there and \<open>ca\<close> is missing, the merge raises \<open>KeyError\<close> for that
  key and the whole script ends with that error, nothing else being computed; when both
  keys are present the merge returns the merged data.
\<close>

theorem merge_thinking_missing_key:
  "(\<not> has_key loaded ''sf'' \<longrightarrow>
      merge_thinking loaded = Inl (KeyError ''sf'')
      \<and> script loaded = Inl (Raised (KeyError ''sf'')))
   \<and> (has_key loaded ''sf'' \<and> \<not> has_key loaded ''ca'' \<longrightarrow>
      merge_thinking loaded = Inl (KeyError ''ca'')
      \<and> script loaded = Inl (Raised (KeyError ''ca'')))
   \<and> (has_key loaded ''sf'' \<and> has_key loaded ''ca'' \<longrightarrow>
      (\<exists>ed. merge_thinking loaded = Inr ed))"
proof (intro conjI impI)
  assume a: "\<not> has_key loaded ''sf''"
  then show m: "merge_thinking loaded = Inl (KeyError ''sf'')"
    by (simp add: merge_thinking_eq has_key_iff)
  show "script loaded = Inl (Raised (KeyError ''sf''))"
    by (rule script_merge_error [OF m])
next
  assume a: "has_key loaded ''sf'' \<and> \<not> has_key loaded ''ca''"
  then show m: "merge_thinking loaded = Inl (KeyError ''ca'')"
    by (auto simp: merge_thinking_eq has_key_iff)
  show "script loaded = Inl (Raised (KeyError ''ca''))"
    by (rule script_merge_error [OF m])
next
  assume a: "has_key loaded ''sf'' \<and> has_key loaded ''ca''"
  then show "\<exists>ed. merge_thinking loaded = Inr ed"
    by (auto simp: merge_thinking_eq has_key_iff)
qed

theorem merge_thinking_missing_key_witness:
  "\<not> has_key ([] :: eval_data) ''sf''
   \<and> merge_thinking [] = Inl (KeyError ''sf'')
   \<and> script [] = Inl (Raised (KeyError ''sf''))
   \<and> has_key [(''sf'', []) :: string \<times> metrics dict] ''sf''
   \<and> \<not> has_key [(''sf'', []) :: string \<times> metrics dict] ''ca''
   \<and> merge_thinking [(''sf'', [])] = Inl (KeyError ''ca'')
   \<and> script [(''sf'', [])] = Inl (Raised (KeyError ''ca''))
   \<and> has_key [(''sf'', []), (''ca'', []) :: string \<times> metrics dict] ''sf''
   \<and> has_key [(''sf'', []), (''ca'', []) :: string \<times> metrics dict] ''ca''
   \<and> (\<exists>ed. merge_thinking [(''sf'', []), (''ca'', [])] = Inr ed)"
proof -
  have h1: "\<not> has_key ([] :: eval_data) ''sf''"
    by (simp add: has_key_def)
  have h2: "has_key [(''sf'', []) :: string \<times> metrics dict] ''sf''
      \<and> \<not> has_key [(''sf'', []) :: string \<times> metrics dict] ''ca''"
    by (simp add: has_key_def)
  have h3: "has_key [(''sf'', []), (''ca'', []) :: string \<times> metrics dict] ''sf''
      \<and> has_key [(''sf'', []), (''ca'', []) :: string \<times> metrics dict] ''ca''"
    by (simp add: has_key_def)
  note c1 = merge_thinking_missing_key [of "[]", THEN conjunct1, THEN mp, OF h1]
  note c2 = merge_thinking_missing_key [of "[(''sf'', [])]", THEN conjunct2, THEN conjunct1,
      THEN mp, OF h2]
  note c3 = merge_thinking_missing_key [of "[(''sf'', []), (''ca'', [])]", THEN conjunct2,
      THEN conjunct2, THEN mp, OF h3]
  from h1 h2 h3 c1 c2 c3 show ?thesis by simp
qed

lemma get_total_accuracy_eq:
  assumes "map_of data ''exactAccuracy'' = Some ex" and "map_of data ''mostlyAccuracy'' = Some mo"
  shows "get_total_accuracy data =
           Inr (case map_of data ''totalAccuracy'' of Some v \<Rightarrow> v | None \<Rightarrow> ex + mo)"
  using assms by (simp add: get_total_accuracy_def getitem_def dict_get_def)

lemma results_row_fields:
  assumes "results_row ds m data = Inr r"
  shows "model r = m" and "dataset r = ds"
    and "get_total_accuracy data = Inr (total_accuracy r)"
    and "getitem data ''exactAccuracy'' = Inr (exact_accuracy r)"
    and "getitem data ''mostlyAccuracy'' = Inr (mostly_accuracy r)"
    and "getitem data ''totalSamples'' = Inr (total_samples r)"
    and "(family r, company r, is_thinking r) = categorize_model m"
  using assms
  by (auto simp: results_row_def split: prod.splits sum.splits)

lemma results_row_total:
  assumes "map_of data ''exactAccuracy'' = Some ex" and "map_of data ''mostlyAccuracy'' = Some mo"
    and "map_of data ''totalSamples'' = Some n"
  shows "\<exists>r. results_row ds m data = Inr r"
  using assms get_total_accuracy_eq [OF assms(1,2)]
  by (simp add: results_row_def getitem_def split: prod.splits)

lemma results_items_mem:
  "results_items ds d = Inr rs \<Longrightarrow> (m, data) \<in> set d \<Longrightarrow>
     \<exists>r\<in>set rs. results_row ds m data = Inr r"
  by (induction d arbitrary: rs) (auto split: sum.splits)

lemma results_loop_mem:
  "results_loop dss ed = Inr df \<Longrightarrow> ds \<in> set dss \<Longrightarrow> getitem ed ds = Inr d \<Longrightarrow>
     \<exists>rs. results_items ds d = Inr rs \<and> set rs \<subseteq> set df"
proof (induction dss arbitrary: df)
  case Nil
  then show ?case by simp
next
  case (Cons a dss)
  from Cons.prems(1) obtain d0 rs0 df0 where s:
    "getitem ed a = Inr d0" "results_items a d0 = Inr rs0" "results_loop dss ed = Inr df0"
    "df = rs0 @ df0"
    by (auto split: sum.splits)
  show ?case
  proof (cases "ds = a")
    case True
    with s Cons.prems(3) show ?thesis by auto
  next
    case False
    with Cons.prems(2) have "ds \<in> set dss" by simp
    from Cons.IH [OF s(3) this Cons.prems(3)] s(4) show ?thesis by auto
  qed
qed

lemma results_mem:
  assumes "results ed = Inr df" and "ds = ''sf'' \<or> ds = ''ca''"
    and "getitem ed ds = Inr d" and "(m, data) \<in> set d"
  shows "\<exists>r\<in>set df. results_row ds m data = Inr r"
proof -
  from assms(2) have "ds \<in> set [''sf'', ''ca'']" by auto
  from results_loop_mem [OF assms(1) [unfolded results_def] this assms(3)]
  obtain rs where "results_items ds d = Inr rs" "set rs \<subseteq> set df" by blast
  with results_items_mem [OF this(1) assms(4)] show ?thesis by blast
qed

lemma token_row_of_fields:
  assumes "token_row_of ds m data = Inr (Some t)"
  shows "tok_model t = m" and "tok_dataset t = ds"
    and "get_total_accuracy data = Inr (tok_total_accuracy t)"
    and "getitem data ''avgOutputTokens'' = Inr (avg_tokens t)"
    and "has_key data ''avgOutputTokens''"
  using assms
  by (auto simp: token_row_of_def split: prod.splits sum.splits if_splits)

text \<open>
  Claim C2. For a record that has \<open>exactAccuracy\<close> and \<open>mostlyAccuracy\<close>, the expression that
  derives the total accuracy returns the stored \<open>totalAccuracy\<close> when there is one and the
  sum of the two accuracies otherwise. That value is the \<open>total_accuracy\<close> of the row built
  from the record (a row is built as soon as \<open>totalSamples\<close> is there too), of its token
  row, and of the row that the flattened table holds for the record.
\<close>

theorem total_accuracy_stored_or_sum:
  assumes ex: "map_of data ''exactAccuracy'' = Some ex"
    and mo: "map_of data ''mostlyAccuracy'' = Some mo"
  shows "get_total_accuracy data =
           Inr (case map_of data ''totalAccuracy'' of Some v \<Rightarrow> v | None \<Rightarrow> ex + mo)
    \<and> (\<forall>r. results_row ds m data = Inr r \<longrightarrow>
          total_accuracy r = (case map_of data ''totalAccuracy'' of Some v \<Rightarrow> v | None \<Rightarrow> ex + mo))
    \<and> (has_key data ''totalSamples'' \<longrightarrow> (\<exists>r. results_row ds m data = Inr r))
    \<and> (\<forall>t. token_row_of ds m data = Inr (Some t) \<longrightarrow>
          tok_total_accuracy t = (case map_of data ''totalAccuracy'' of Some v \<Rightarrow> v | None \<Rightarrow> ex + mo))
    \<and> (\<forall>ed d df. results ed = Inr df \<and> (ds = ''sf'' \<or> ds = ''ca'') \<and> getitem ed ds = Inr d
          \<and> (m, data) \<in> set d \<longrightarrow>
          (\<exists>r\<in>set df. model r = m \<and> dataset r = ds \<and>
             total_accuracy r = (case map_of data ''totalAccuracy'' of Some v \<Rightarrow> v | None \<Rightarrow> ex + mo)))"
proof (intro conjI allI impI)
  note g = get_total_accuracy_eq [OF ex mo]
  show "get_total_accuracy data =
           Inr (case map_of data ''totalAccuracy'' of Some v \<Rightarrow> v | None \<Rightarrow> ex + mo)"
    by (rule g)
  { fix r assume "results_row ds m data = Inr r"
    from results_row_fields(3) [OF this] g
    show "total_accuracy r = (case map_of data ''totalAccuracy'' of Some v \<Rightarrow> v | None \<Rightarrow> ex + mo)"
      by simp }
  { assume "has_key data ''totalSamples''"
    then obtain n where "map_of data ''totalSamples'' = Some n"
      by (auto simp: has_key_def)
    from results_row_total [OF ex mo this] show "\<exists>r. results_row ds m data = Inr r" . }
  { fix t assume "token_row_of ds m data = Inr (Some t)"
    from token_row_of_fields(3) [OF this] g
    show "tok_total_accuracy t = (case map_of data ''totalAccuracy'' of Some v \<Rightarrow> v | None \<Rightarrow> ex + mo)"
      by simp }
  { fix ed d df
    assume a: "results ed = Inr df \<and> (ds = ''sf'' \<or> ds = ''ca'') \<and> getitem ed ds = Inr d
          \<and> (m, data) \<in> set d"
    then obtain r where r: "r \<in> set df" "results_row ds m data = Inr r"
      using results_mem [of ed df ds d m data] by blast
    from results_row_fields(1-3) [OF r(2)] g r(1)
    show "\<exists>r\<in>set df. model r = m \<and> dataset r = ds \<and>
             total_accuracy r = (case map_of data ''totalAccuracy'' of Some v \<Rightarrow> v | None \<Rightarrow> ex + mo)"
      by auto }
qed

subsection \<open>The literal record in the table\<close>

theorem total_accuracy_stored_or_sum_witness:
  "map_of [(''exactAccuracy'', 1/10), (''mostlyAccuracy'', 1/5), (''totalSamples'', 10 :: rat)]
      ''exactAccuracy'' = Some (1/10)
   \<and> map_of [(''exactAccuracy'', 1/10), (''mostlyAccuracy'', 1/5), (''totalSamples'', 10 :: rat)]
      ''mostlyAccuracy'' = Some (1/5)
   \<and> get_total_accuracy
        [(''exactAccuracy'', 1/10), (''mostlyAccuracy'', 1/5), (''totalSamples'', 10)] = Inr (3/10)"
proof -
  have h1: "map_of [(''exactAccuracy'', 1/10), (''mostlyAccuracy'', 1/5), (''totalSamples'', 10 :: rat)]
      ''exactAccuracy'' = Some (1/10)" by simp
  have h2: "map_of [(''exactAccuracy'', 1/10), (''mostlyAccuracy'', 1/5), (''totalSamples'', 10 :: rat)]
      ''mostlyAccuracy'' = Some (1/5)" by simp
  from total_accuracy_stored_or_sum [OF h1 h2, THEN conjunct1] h1 h2
  show ?thesis by simp
qed

lemma opus_sf_in_block:
  "map_of (rev (snd (thinking_results ! 0))) ''claude-opus-4-20250514--thinking'' =
     Some [(''totalSamples'', 50), (''exactlyCorrect'', 8), (''mostlyCorrect'', 3),
           (''exactAccuracy'', 0.16), (''mostlyAccuracy'', 0.06), (''totalAccuracy'', 0.22)]"
  by (simp add: thinking_results_def)

lemma categorize_opus_thinking:
  "categorize_model ''claude-opus-4-20250514--thinking'' = (''claude'', ''anthropic'', True)"
  by (simp add: categorize_model_def lower_def lower_char_def)

lemma opus_sf_row:
  "results_row ''sf'' ''claude-opus-4-20250514--thinking''
     [(''totalSamples'', 50), (''exactlyCorrect'', 8), (''mostlyCorrect'', 3),
      (''exactAccuracy'', 0.16), (''mostlyAccuracy'', 0.06), (''totalAccuracy'', 0.22)] =
   Inr \<lparr>model = ''claude-opus-4-20250514--thinking'', dataset = ''sf'', family = ''claude'',
        company = ''anthropic'', is_thinking = True, exact_accuracy = 0.16,
        mostly_accuracy = 0.06, total_accuracy = 0.22, total_samples = 50\<rparr>"
  by (simp add: results_row_def categorize_opus_thinking getitem_def get_total_accuracy_def
      dict_get_def)

lemma merged_sf:
  assumes "merge_thinking loaded = Inr ed"
  shows "\<exists>d. map_of loaded ''sf'' = Some d
     \<and> getitem ed ''sf'' = Inr (dict_update d (snd (thinking_results ! 0)))"
  using assms
  by (auto simp: merge_thinking_eq getitem_dict_set split: option.splits)

lemma merged_ca:
  assumes "merge_thinking loaded = Inr ed"
  shows "\<exists>d. map_of loaded ''ca'' = Some d
     \<and> getitem ed ''ca'' = Inr (dict_update d (snd (thinking_results ! 1)))"
  using assms
  by (auto simp: merge_thinking_eq getitem_dict_set split: option.splits)

text \<open>
  Claim C9. The row built from the literal \<open>sf\<close> record of
  \<open>claude-opus-4-20250514--thinking\<close> (50 samples, 8 exactly and 3 mostly correct, exact
  accuracy 0.16, mostly accuracy 0.06) has total accuracy 0.22, and whatever file was
  loaded, the flattened table of the merged data holds that row.
\<close>

theorem opus_thinking_sf_total_accuracy:
  "(\<exists>r. results_row ''sf'' ''claude-opus-4-20250514--thinking''
          [(''totalSamples'', 50), (''exactlyCorrect'', 8), (''mostlyCorrect'', 3),
           (''exactAccuracy'', 0.16), (''mostlyAccuracy'', 0.06), (''totalAccuracy'', 0.22)] = Inr r
        \<and> total_accuracy r = 0.22)
   \<and> (\<forall>loaded ed df. merge_thinking loaded = Inr ed \<and> results ed = Inr df \<longrightarrow>
        (\<exists>r\<in>set df. model r = ''claude-opus-4-20250514--thinking'' \<and> dataset r = ''sf''
           \<and> exact_accuracy r = 0.16 \<and> mostly_accuracy r = 0.06 \<and> total_samples r = 50
           \<and> total_accuracy r = 0.22))"
proof (intro conjI allI impI)
  show "\<exists>r. results_row ''sf'' ''claude-opus-4-20250514--thinking''
          [(''totalSamples'', 50), (''exactlyCorrect'', 8), (''mostlyCorrect'', 3),
           (''exactAccuracy'', 0.16), (''mostlyAccuracy'', 0.06), (''totalAccuracy'', 0.22)] = Inr r
        \<and> total_accuracy r = 0.22"
    unfolding opus_sf_row by simp
next
  fix loaded ed df
  assume a: "merge_thinking loaded = Inr ed \<and> results ed = Inr df"
  then obtain d where d: "getitem ed ''sf'' = Inr (dict_update d (snd (thinking_results ! 0)))"
    using merged_sf by blast
  have "map_of (dict_update d (snd (thinking_results ! 0))) ''claude-opus-4-20250514--thinking'' =
     Some [(''totalSamples'', 50), (''exactlyCorrect'', 8), (''mostlyCorrect'', 3),
           (''exactAccuracy'', 0.16), (''mostlyAccuracy'', 0.06), (''totalAccuracy'', 0.22)]"
    unfolding map_of_dict_update opus_sf_in_block by simp
  then have "(''claude-opus-4-20250514--thinking'',
       [(''totalSamples'', 50), (''exactlyCorrect'', 8), (''mostlyCorrect'', 3),
           (''exactAccuracy'', 0.16), (''mostlyAccuracy'', 0.06), (''totalAccuracy'', 0.22)])
     \<in> set (dict_update d (snd (thinking_results ! 0)))"
    by (rule map_of_SomeD)
  from results_mem [OF conjunct2 [OF a] _ d this]
  obtain r where "r \<in> set df" "results_row ''sf'' ''claude-opus-4-20250514--thinking''
     [(''totalSamples'', 50), (''exactlyCorrect'', 8), (''mostlyCorrect'', 3),
           (''exactAccuracy'', 0.16), (''mostlyAccuracy'', 0.06), (''totalAccuracy'', 0.22)] = Inr r"
    by blast
  then show "\<exists>r\<in>set df. model r = ''claude-opus-4-20250514--thinking'' \<and> dataset r = ''sf''
           \<and> exact_accuracy r = 0.16 \<and> mostly_accuracy r = 0.06 \<and> total_samples r = 50
           \<and> total_accuracy r = 0.22"
    unfolding opus_sf_row by (intro bexI [of _ r]) auto
qed

lemma merge_empty:
  "merge_thinking [(''sf'', []), (''ca'', [])] = Inr thinking_results"
  by (simp add: merge_thinking_eq thinking_results_def)

lemma results_block: "\<exists>df. results thinking_results = Inr df"
  by (simp add: results_def thinking_results_def getitem_def results_row_def
      get_total_accuracy_def dict_get_def split: prod.splits)

theorem opus_thinking_sf_total_accuracy_witness:
  "merge_thinking [(''sf'', []), (''ca'', [])] = Inr thinking_results
   \<and> (\<exists>df. results thinking_results = Inr df
        \<and> (\<exists>r\<in>set df. model r = ''claude-opus-4-20250514--thinking'' \<and> dataset r = ''sf''
              \<and> total_accuracy r = 0.22))"
proof -
  from results_block obtain df where df: "results thinking_results = Inr df" by blast
  from opus_thinking_sf_total_accuracy [THEN conjunct2, rule_format,
      of "[(''sf'', []), (''ca'', [])]" thinking_results df] merge_empty df
  have "\<exists>r\<in>set df. model r = ''claude-opus-4-20250514--thinking'' \<and> dataset r = ''sf''
           \<and> exact_accuracy r = 0.16 \<and> mostly_accuracy r = 0.06 \<and> total_samples r = 50
           \<and> total_accuracy r = 0.22"
    by blast
  with df merge_empty show ?thesis by blast
qed

subsection \<open>Group-best: the first maximum of every group\<close>

lemma idxmax_scan_mem: "idxmax_scan b ps \<in> set (b # ps)"
  by (induction ps arbitrary: b) auto

lemma idxmax_scan_ge_best: "snd b \<le> snd (idxmax_scan b ps)"
proof (induction ps arbitrary: b)
  case Nil
  then show ?case by simp
next
  case (Cons p ps)
  show ?case
  proof (cases "snd b < snd p")
    case True
    with Cons.IH [of p] show ?thesis by simp
  next
    case False
    with Cons.IH [of b] show ?thesis by simp
  qed
qed

lemma idxmax_scan_max: "q \<in> set (b # ps) \<Longrightarrow> snd q \<le> snd (idxmax_scan b ps)"
proof (induction ps arbitrary: b)
  case Nil
  then show ?case by simp
next
  case (Cons p ps)
  show ?case
  proof (cases "snd b < snd p")
    case True
    then have e: "idxmax_scan b (p # ps) = idxmax_scan p ps" by simp
    from Cons.prems consider "q = b" | "q \<in> set (p # ps)" by auto
    then show ?thesis
    proof cases
      case 1
      with True idxmax_scan_ge_best [of p ps] show ?thesis unfolding e by simp
    next
      case 2
      from Cons.IH [OF this] show ?thesis unfolding e .
    qed
  next
    case False
    then have e: "idxmax_scan b (p # ps) = idxmax_scan b ps" by simp
    from Cons.prems consider "q = p" | "q \<in> set (b # ps)" by auto
    then show ?thesis
    proof cases
      case 1
      with False idxmax_scan_ge_best [of b ps] show ?thesis unfolding e by simp
    next
      case 2
      from Cons.IH [OF this] show ?thesis unfolding e .
    qed
  qed
qed

lemma idxmax_scan_changed: "idxmax_scan b ps = b \<or> snd b < snd (idxmax_scan b ps)"
proof (induction ps arbitrary: b)
  case Nil
  then show ?case by simp
next
  case (Cons p ps)
  show ?case
  proof (cases "snd b < snd p")
    case True
    with idxmax_scan_ge_best [of p ps] show ?thesis by simp
  next
    case False
    with Cons.IH [of b] show ?thesis by simp
  qed
qed

lemma idxmax_scan_first:
  "sorted_wrt (<) (map fst (b # ps)) \<Longrightarrow> q \<in> set (b # ps) \<Longrightarrow>
     fst q < fst (idxmax_scan b ps) \<Longrightarrow> snd q < snd (idxmax_scan b ps)"
proof (induction ps arbitrary: b)
  case Nil
  then show ?case by simp
next
  case (Cons p ps)
  from Cons.prems(1) have sp: "sorted_wrt (<) (map fst (p # ps))" by simp
  from Cons.prems(1) have sb: "sorted_wrt (<) (map fst (b # ps))" by simp
  from Cons.prems(1) have bp: "fst b < fst p" by simp
  show ?case
  proof (cases "snd b < snd p")
    case True
    then have e: "idxmax_scan b (p # ps) = idxmax_scan p ps" by simp
    from Cons.prems(2) consider "q = b" | "q \<in> set (p # ps)" by auto
    then show ?thesis
    proof cases
      case 1
      with True idxmax_scan_ge_best [of p ps] show ?thesis unfolding e by simp
    next
      case 2
      from Cons.IH [OF sp this] Cons.prems(3) show ?thesis unfolding e by simp
    qed
  next
    case False
    then have e: "idxmax_scan b (p # ps) = idxmax_scan b ps" by simp
    from Cons.prems(2) consider "q = p" | "q \<in> set (b # ps)" by auto
    then show ?thesis
    proof cases
      case 1
      from idxmax_scan_changed [of b ps] show ?thesis
      proof
        assume "idxmax_scan b ps = b"
        with Cons.prems(3) 1 bp show ?thesis unfolding e by simp
      next
        assume "snd b < snd (idxmax_scan b ps)"
        with False 1 show ?thesis unfolding e by simp
      qed
    next
      case 2
      from Cons.IH [OF sb this] Cons.prems(3) show ?thesis unfolding e by simp
    qed
  qed
qed

lemma group_series_set:
  "set (group_series key g df) = {(i, total_accuracy (df ! i)) | i. i < length df \<and> key (df ! i) = g}"
  by (auto simp: group_series_def in_set_enumerate_eq image_iff)

lemma group_series_sorted: "sorted_wrt (<) (map fst (group_series key g df))"
proof -
  have "map fst (group_series key g df) =
      map fst (filter (\<lambda>p. key (snd p) = g) (enumerate 0 df))"
    by (simp add: group_series_def comp_def)
  moreover have "sorted_wrt (<) (map fst (enumerate 0 df))"
    by (simp add: map_fst_enumerate)
  then have "sorted_wrt (<) (map fst (filter (\<lambda>p. key (snd p) = g) (enumerate 0 df)))"
    unfolding sorted_wrt_map by (rule sorted_wrt_filter)
  ultimately show ?thesis by simp
qed

lemma best_of_group_spec:
  assumes "g \<in> key ` set df"
  shows "\<exists>i. i < length df \<and> best_of_group key df g = Some (df ! i) \<and> key (df ! i) = g
     \<and> (\<forall>j < length df. key (df ! j) = g \<longrightarrow> total_accuracy (df ! j) \<le> total_accuracy (df ! i))
     \<and> (\<forall>j < i. key (df ! j) = g \<longrightarrow> total_accuracy (df ! j) < total_accuracy (df ! i))"
proof -
  from assms obtain k where k: "k < length df" "key (df ! k) = g"
    by (auto simp: in_set_conv_nth)
  then have "(k, total_accuracy (df ! k)) \<in> set (group_series key g df)"
    unfolding group_series_set by blast
  then obtain b ps where s: "group_series key g df = b # ps"
    by (cases "group_series key g df") auto
  define res where "res = idxmax_scan b ps"
  have im: "idxmax (group_series key g df) = Some (fst res)"
    by (simp add: idxmax_def s res_def)
  have "res \<in> set (group_series key g df)"
    unfolding s res_def by (rule idxmax_scan_mem)
  then have res: "fst res < length df" "key (df ! fst res) = g"
    "snd res = total_accuracy (df ! fst res)"
    unfolding group_series_set by auto
  have best: "best_of_group key df g = Some (df ! fst res)"
    using res(1) by (simp add: best_of_group_def im loc_def)
  have mx: "total_accuracy (df ! j) \<le> total_accuracy (df ! fst res)"
    if "j < length df" "key (df ! j) = g" for j
  proof -
    from that have "(j, total_accuracy (df ! j)) \<in> set (b # ps)"
      unfolding s [symmetric] group_series_set by blast
    from idxmax_scan_max [OF this] show ?thesis
      unfolding res_def [symmetric] res(3) by simp
  qed
  have fs: "total_accuracy (df ! j) < total_accuracy (df ! fst res)"
    if "j < fst res" "key (df ! j) = g" for j
  proof -
    from that res(1) have "(j, total_accuracy (df ! j)) \<in> set (b # ps)"
      unfolding s [symmetric] group_series_set by auto
    from idxmax_scan_first [OF group_series_sorted [of key g df, unfolded s] this] that(1)
    show ?thesis
      unfolding res_def [symmetric] res(3) by simp
  qed
  from res(1,2) best mx fs show ?thesis by blast
qed

lemma those_map_Some:
  "(\<And>x. x \<in> set xs \<Longrightarrow> f x \<noteq> None) \<Longrightarrow> those (map f xs) = Some (map (\<lambda>x. the (f x)) xs)"
  by (induction xs) (auto split: option.splits)

lemma group_keys_set: "set (group_keys key df) = key ` set df"
  by (simp add: group_keys_def)

lemma group_best_spec:
  "\<exists>best. group_best key df = Some best
     \<and> map key best = sort (remdups (map key df))
     \<and> (\<forall>b \<in> set best. \<exists>i < length df. b = df ! i
          \<and> (\<forall>r \<in> set df. key r = key b \<longrightarrow> total_accuracy r \<le> total_accuracy b)
          \<and> (\<forall>j < i. key (df ! j) = key b \<longrightarrow> total_accuracy (df ! j) < total_accuracy b))"
proof -
  let ?ks = "group_keys key df"
  let ?f = "best_of_group key df"
  have ne: "?f g \<noteq> None" if "g \<in> set ?ks" for g
    using best_of_group_spec [of g key df] that unfolding group_keys_set by auto
  from those_map_Some [of ?ks ?f, OF ne]
  have gb: "group_best key df = Some (map (\<lambda>g. the (?f g)) ?ks)"
    by (simp add: group_best_def)
  have keys: "map key (map (\<lambda>g. the (?f g)) ?ks) = ?ks"
  proof -
    have "key (the (?f g)) = g" if "g \<in> set ?ks" for g
      using best_of_group_spec [of g key df] that unfolding group_keys_set by auto
    then show ?thesis by (simp add: map_idI)
  qed
  have each: "\<exists>i < length df. b = df ! i
          \<and> (\<forall>r \<in> set df. key r = key b \<longrightarrow> total_accuracy r \<le> total_accuracy b)
          \<and> (\<forall>j < i. key (df ! j) = key b \<longrightarrow> total_accuracy (df ! j) < total_accuracy b)"
    if "b \<in> set (map (\<lambda>g. the (?f g)) ?ks)" for b
  proof -
    from that obtain g where g: "g \<in> set ?ks" "b = the (?f g)" by auto
    from best_of_group_spec [of g key df] g(1) obtain i where i:
      "i < length df" "?f g = Some (df ! i)" "key (df ! i) = g"
      "\<forall>j < length df. key (df ! j) = g \<longrightarrow> total_accuracy (df ! j) \<le> total_accuracy (df ! i)"
      "\<forall>j < i. key (df ! j) = g \<longrightarrow> total_accuracy (df ! j) < total_accuracy (df ! i)"
      unfolding group_keys_set by blast
    from g(2) i(2) have b: "b = df ! i" by simp
    have "\<forall>r \<in> set df. key r = key b \<longrightarrow> total_accuracy r \<le> total_accuracy b"
      using i(3,4) unfolding b by (auto simp: in_set_conv_nth)
    with i(1,3,5) b show ?thesis by blast
  qed
  from gb keys each show ?thesis
    unfolding group_keys_def by blast
qed

text \<open>
  Claim C3. \<open>family_best\<close> and \<open>company_best\<close> never fail; they hold one row for each
  (dataset, family), respectively (dataset, company), that occurs in the table, in sorted
  key order. Each selected row is a row of the table whose total accuracy is at least that
  of every row of its group, and it is the first such row: every earlier row of the group
  has a strictly smaller total accuracy.
\<close>

theorem group_best_is_first_maximum:
  "(\<exists>best. family_best df = Some best
      \<and> map (\<lambda>r. (dataset r, family r)) best = sort (remdups (map (\<lambda>r. (dataset r, family r)) df))
      \<and> (\<forall>b \<in> set best. \<exists>i < length df. b = df ! i
           \<and> (\<forall>r \<in> set df. dataset r = dataset b \<and> family r = family b \<longrightarrow>
                 total_accuracy r \<le> total_accuracy b)
           \<and> (\<forall>j < i. dataset (df ! j) = dataset b \<and> family (df ! j) = family b \<longrightarrow>
                 total_accuracy (df ! j) < total_accuracy b)))
   \<and> (\<exists>best. company_best df = Some best
      \<and> map (\<lambda>r. (dataset r, company r)) best = sort (remdups (map (\<lambda>r. (dataset r, company r)) df))
      \<and> (\<forall>b \<in> set best. \<exists>i < length df. b = df ! i
           \<and> (\<forall>r \<in> set df. dataset r = dataset b \<and> company r = company b \<longrightarrow>
                 total_accuracy r \<le> total_accuracy b)
           \<and> (\<forall>j < i. dataset (df ! j) = dataset b \<and> company (df ! j) = company b \<longrightarrow>
                 total_accuracy (df ! j) < total_accuracy b)))"
proof (rule conjI)
  from group_best_spec [of "\<lambda>r. (dataset r, family r)" df]
  show "(\<exists>best. family_best df = Some best
      \<and> map (\<lambda>r. (dataset r, family r)) best = sort (remdups (map (\<lambda>r. (dataset r, family r)) df))
      \<and> (\<forall>b \<in> set best. \<exists>i < length df. b = df ! i
           \<and> (\<forall>r \<in> set df. dataset r = dataset b \<and> family r = family b \<longrightarrow>
                 total_accuracy r \<le> total_accuracy b)
           \<and> (\<forall>j < i. dataset (df ! j) = dataset b \<and> family (df ! j) = family b \<longrightarrow>
                 total_accuracy (df ! j) < total_accuracy b)))"
    unfolding family_best_def by (simp only: prod.inject)
  from group_best_spec [of "\<lambda>r. (dataset r, company r)" df]
  show "(\<exists>best. company_best df = Some best
      \<and> map (\<lambda>r. (dataset r, company r)) best = sort (remdups (map (\<lambda>r. (dataset r, company r)) df))
      \<and> (\<forall>b \<in> set best. \<exists>i < length df. b = df ! i
           \<and> (\<forall>r \<in> set df. dataset r = dataset b \<and> company r = company b \<longrightarrow>
                 total_accuracy r \<le> total_accuracy b)
           \<and> (\<forall>j < i. dataset (df ! j) = dataset b \<and> company (df ! j) = company b \<longrightarrow>
                 total_accuracy (df ! j) < total_accuracy b)))"
    unfolding company_best_def by (simp only: prod.inject)
qed

theorem group_best_is_first_maximum_witness:
  "family_best
      [\<lparr>model = ''a'', dataset = ''sf'', family = ''gpt'', company = ''openai'',
           is_thinking = False, exact_accuracy = 0, mostly_accuracy = 0,
           total_accuracy = 1/4, total_samples = 1\<rparr>,
          \<lparr>model = ''b'', dataset = ''sf'', family = ''claude'', company = ''anthropic'',
           is_thinking = False, exact_accuracy = 0, mostly_accuracy = 0,
           total_accuracy = 1/2, total_samples = 1\<rparr>,
          \<lparr>model = ''c'', dataset = ''sf'', family = ''claude'', company = ''anthropic'',
           is_thinking = False, exact_accuracy = 0, mostly_accuracy = 0,
           total_accuracy = 1/2, total_samples = 1\<rparr>] =
    Some [\<lparr>model = ''b'', dataset = ''sf'', family = ''claude'', company = ''anthropic'',
        is_thinking = False, exact_accuracy = 0, mostly_accuracy = 0,
        total_accuracy = 1/2, total_samples = 1\<rparr>,
          \<lparr>model = ''a'', dataset = ''sf'', family = ''gpt'', company = ''openai'',
        is_thinking = False, exact_accuracy = 0, mostly_accuracy = 0,
        total_accuracy = 1/4, total_samples = 1\<rparr>]
   \<and> list_all (\<lambda>r. total_accuracy r \<le> 1/2)
        (filter (\<lambda>r. dataset r = ''sf'' \<and> family r = ''claude'')
           [\<lparr>model = ''a'', dataset = ''sf'', family = ''gpt'', company = ''openai'',
           is_thinking = False, exact_accuracy = 0, mostly_accuracy = 0,
           total_accuracy = 1/4, total_samples = 1\<rparr>,
          \<lparr>model = ''b'', dataset = ''sf'', family = ''claude'', company = ''anthropic'',
           is_thinking = False, exact_accuracy = 0, mostly_accuracy = 0,
           total_accuracy = 1/2, total_samples = 1\<rparr>,
          \<lparr>model = ''c'', dataset = ''sf'', family = ''claude'', company = ''anthropic'',
           is_thinking = False, exact_accuracy = 0, mostly_accuracy = 0,
           total_accuracy = 1/2, total_samples = 1\<rparr>])"
proof -
  let ?A = "\<lparr>model = ''a'', dataset = ''sf'', family = ''gpt'', company = ''openai'',
        is_thinking = False, exact_accuracy = 0, mostly_accuracy = 0,
        total_accuracy = 1/4, total_samples = 1\<rparr>"
  let ?B = "\<lparr>model = ''b'', dataset = ''sf'', family = ''claude'', company = ''anthropic'',
        is_thinking = False, exact_accuracy = 0, mostly_accuracy = 0,
        total_accuracy = 1/2, total_samples = 1\<rparr>"
  let ?C = "\<lparr>model = ''c'', dataset = ''sf'', family = ''claude'', company = ''anthropic'',
        is_thinking = False, exact_accuracy = 0, mostly_accuracy = 0,
        total_accuracy = 1/2, total_samples = 1\<rparr>"
  let ?df = "[?A, ?B, ?C]"
  have fb: "family_best ?df = Some [?B, ?A]"
    by code_simp
  from group_best_is_first_maximum [of ?df, THEN conjunct1] obtain best where
    b: "family_best ?df = Some best"
      "\<forall>b \<in> set best. \<exists>i < length ?df. b = ?df ! i
           \<and> (\<forall>r \<in> set ?df. dataset r = dataset b \<and> family r = family b \<longrightarrow>
                 total_accuracy r \<le> total_accuracy b)
           \<and> (\<forall>j < i. dataset (?df ! j) = dataset b \<and> family (?df ! j) = family b \<longrightarrow>
                 total_accuracy (?df ! j) < total_accuracy b)"
    by blast
  from b(1) have "Some best = Some [?B, ?A]" unfolding fb by (rule sym)
  then have "best = [?B, ?A]" by (simp only: option.inject)
  then have "?B \<in> set best" by (simp only: list.set insert_iff simp_thms)
  with b(2) have "\<forall>r \<in> set ?df. dataset r = dataset ?B \<and> family r = family ?B \<longrightarrow>
                 total_accuracy r \<le> total_accuracy ?B"
    by blast
  then have "list_all (\<lambda>r. total_accuracy r \<le> 1/2)
        (filter (\<lambda>r. dataset r = ''sf'' \<and> family r = ''claude'') ?df)"
    by (simp add: list_all_iff)
  with fb show ?thesis by simp
qed

subsection \<open>Paired improvement\<close>

lemma relative_of_eq: "relative_of imp b = Inr (if 0 < b then imp / b else 0)"
  by (simp add: relative_of_def py_div_def)

lemma improvement_of_eq:
  "improvement_of df ds base =
     (case select_rows df ds base of
        [] \<Rightarrow> Inr None
      | b # bs \<Rightarrow>
          (case select_rows df ds (base @ ''--thinking'') of
             [] \<Rightarrow> Inr None
           | t # ts \<Rightarrow>
               Inr (Some \<lparr>imp_dataset = ds, base_model = base,
                          base_accuracy = total_accuracy b,
                          thinking_accuracy = total_accuracy t,
                          improvement = total_accuracy t - total_accuracy b,
                          relative_improvement =
                            (if 0 < total_accuracy b
                             then (total_accuracy t - total_accuracy b) / total_accuracy b
                             else 0)\<rparr>)))"
  by (simp add: improvement_of_def Let_def relative_of_eq split: list.splits)

lemma improvement_of_total: "\<exists>x. improvement_of df ds base = Inr x"
  unfolding improvement_of_eq by (simp split: list.splits)

lemma improvement_of_Some:
  assumes "improvement_of df ds base = Inr (Some r)"
  shows "\<exists>b bs t ts. select_rows df ds base = b # bs
      \<and> select_rows df ds (base @ ''--thinking'') = t # ts
      \<and> r = \<lparr>imp_dataset = ds, base_model = base,
                          base_accuracy = total_accuracy b,
                          thinking_accuracy = total_accuracy t,
                          improvement = total_accuracy t - total_accuracy b,
                          relative_improvement =
                            (if 0 < total_accuracy b
                             then (total_accuracy t - total_accuracy b) / total_accuracy b
                             else 0)\<rparr>"
  using assms unfolding improvement_of_eq by (auto split: list.splits)

lemma improvements_models_total:
  "\<exists>rs. improvements_models df ds bases = Inr rs
     \<and> (\<forall>r \<in> set rs. \<exists>base \<in> set bases. improvement_of df ds base = Inr (Some r))
     \<and> (\<forall>base \<in> set bases. \<forall>r. improvement_of df ds base = Inr (Some r) \<longrightarrow> r \<in> set rs)"
proof (induction bases)
  case Nil
  then show ?case by simp
next
  case (Cons base bases)
  from Cons.IH obtain rs where rs: "improvements_models df ds bases = Inr rs"
    "\<forall>r \<in> set rs. \<exists>base \<in> set bases. improvement_of df ds base = Inr (Some r)"
    "\<forall>base \<in> set bases. \<forall>r. improvement_of df ds base = Inr (Some r) \<longrightarrow> r \<in> set rs"
    by blast
  from improvement_of_total obtain x where x: "improvement_of df ds base = Inr x" by blast
  show ?case
  proof (cases x)
    case None
    with x rs show ?thesis by auto
  next
    case (Some r)
    with x rs show ?thesis by auto
  qed
qed

lemma improvements_loop_total:
  "\<exists>rs. improvements_loop df dss = Inr rs
     \<and> (\<forall>r \<in> set rs. \<exists>ds \<in> set dss. \<exists>base \<in> set (models_in_dataset df ds).
           improvement_of df ds base = Inr (Some r))
     \<and> (\<forall>ds \<in> set dss. \<forall>base \<in> set (models_in_dataset df ds). \<forall>r.
           improvement_of df ds base = Inr (Some r) \<longrightarrow> r \<in> set rs)"
proof (induction dss)
  case Nil
  then show ?case by simp
next
  case (Cons ds dss)
  from Cons.IH obtain rs' where rs': "improvements_loop df dss = Inr rs'"
    "\<forall>r \<in> set rs'. \<exists>ds \<in> set dss. \<exists>base \<in> set (models_in_dataset df ds).
           improvement_of df ds base = Inr (Some r)"
    "\<forall>ds \<in> set dss. \<forall>base \<in> set (models_in_dataset df ds). \<forall>r.
           improvement_of df ds base = Inr (Some r) \<longrightarrow> r \<in> set rs'"
    by blast
  from improvements_models_total [of df ds "models_in_dataset df ds"] obtain rs where rs:
    "improvements_models df ds (models_in_dataset df ds) = Inr rs"
    "\<forall>r \<in> set rs. \<exists>base \<in> set (models_in_dataset df ds). improvement_of df ds base = Inr (Some r)"
    "\<forall>base \<in> set (models_in_dataset df ds). \<forall>r. improvement_of df ds base = Inr (Some r) \<longrightarrow> r \<in> set rs"
    by blast
  have e: "improvements_loop df (ds # dss) = Inr (rs @ rs')"
    by (simp add: rs(1) rs'(1))
  have a: "\<forall>r \<in> set (rs @ rs'). \<exists>ds' \<in> set (ds # dss). \<exists>base \<in> set (models_in_dataset df ds').
           improvement_of df ds' base = Inr (Some r)"
    using rs(2) rs'(2) by (auto; blast)
  have b: "\<forall>ds' \<in> set (ds # dss). \<forall>base \<in> set (models_in_dataset df ds'). \<forall>r.
           improvement_of df ds' base = Inr (Some r) \<longrightarrow> r \<in> set (rs @ rs')"
    using rs(3) rs'(3) by auto
  from e a b show ?case by blast
qed

lemma thinking_improvements_rows:
  "\<exists>rows. thinking_improvements df = Inr rows
     \<and> (\<forall>r \<in> set rows. \<exists>b bs t ts.
           select_rows df (imp_dataset r) (base_model r) = b # bs
           \<and> select_rows df (imp_dataset r) (base_model r @ ''--thinking'') = t # ts
           \<and> base_accuracy r = total_accuracy b
           \<and> thinking_accuracy r = total_accuracy t
           \<and> improvement r = thinking_accuracy r - base_accuracy r
           \<and> relative_improvement r =
               (if 0 < base_accuracy r
                then (thinking_accuracy r - base_accuracy r) / base_accuracy r else 0))"
proof -
  from improvements_loop_total [of df "[''sf'', ''ca'']"] obtain rows where rows:
    "thinking_improvements df = Inr rows"
    "\<forall>r \<in> set rows. \<exists>ds \<in> set [''sf'', ''ca'']. \<exists>base \<in> set (models_in_dataset df ds).
           improvement_of df ds base = Inr (Some r)"
    unfolding thinking_improvements_def by blast
  have "\<exists>b bs t ts.
           select_rows df (imp_dataset r) (base_model r) = b # bs
           \<and> select_rows df (imp_dataset r) (base_model r @ ''--thinking'') = t # ts
           \<and> base_accuracy r = total_accuracy b
           \<and> thinking_accuracy r = total_accuracy t
           \<and> improvement r = thinking_accuracy r - base_accuracy r
           \<and> relative_improvement r =
               (if 0 < base_accuracy r
                then (thinking_accuracy r - base_accuracy r) / base_accuracy r else 0)"
    if "r \<in> set rows" for r
  proof -
    from rows(2) that obtain ds base where "improvement_of df ds base = Inr (Some r)" by blast
    from improvement_of_Some [OF this] obtain b bs t ts where
      s: "select_rows df ds base = b # bs" "select_rows df ds (base @ ''--thinking'') = t # ts"
      and r: "r = \<lparr>imp_dataset = ds, base_model = base,
                          base_accuracy = total_accuracy b,
                          thinking_accuracy = total_accuracy t,
                          improvement = total_accuracy t - total_accuracy b,
                          relative_improvement =
                            (if 0 < total_accuracy b
                             then (total_accuracy t - total_accuracy b) / total_accuracy b
                             else 0)\<rparr>"
      by blast
    show ?thesis
      unfolding r using s by simp
  qed
  with rows(1) show ?thesis by blast
qed

text \<open>
  Claim C5. The relative improvement never raises: it is the improvement divided by the
  base accuracy when the base accuracy is positive, and 0 otherwise, in particular when
  the base accuracy is 0. The pass itself always returns, and each of its rows compares
  the first table row of a base model with the first table row of its \<open>--thinking\<close>
  version in the same dataset: the improvement is the thinking accuracy minus the base
  accuracy, and the relative improvement is that difference over the base accuracy, or 0
  when the base accuracy is 0.
\<close>

theorem relative_improvement_guarded:
  "relative_of imp base_acc = Inr (if 0 < base_acc then imp / base_acc else 0)
   \<and> relative_of imp 0 = Inr 0
   \<and> (\<exists>rows. thinking_improvements df = Inr rows
        \<and> (\<forall>r \<in> set rows.
              (\<exists>b bs t ts.
                 select_rows df (imp_dataset r) (base_model r) = b # bs
                 \<and> select_rows df (imp_dataset r) (base_model r @ ''--thinking'') = t # ts
                 \<and> base_accuracy r = total_accuracy b
                 \<and> thinking_accuracy r = total_accuracy t)
              \<and> improvement r = thinking_accuracy r - base_accuracy r
              \<and> (0 < base_accuracy r \<longrightarrow>
                   relative_improvement r =
                     (thinking_accuracy r - base_accuracy r) / base_accuracy r)
              \<and> (base_accuracy r = 0 \<longrightarrow> relative_improvement r = 0)))"
proof (intro conjI)
  show "relative_of imp base_acc = Inr (if 0 < base_acc then imp / base_acc else 0)"
    by (rule relative_of_eq)
  show "relative_of imp 0 = Inr 0"
    by (simp add: relative_of_eq)
  from thinking_improvements_rows [of df] obtain rows where rows:
    "thinking_improvements df = Inr rows"
    "\<forall>r \<in> set rows. \<exists>b bs t ts.
           select_rows df (imp_dataset r) (base_model r) = b # bs
           \<and> select_rows df (imp_dataset r) (base_model r @ ''--thinking'') = t # ts
           \<and> base_accuracy r = total_accuracy b
           \<and> thinking_accuracy r = total_accuracy t
           \<and> improvement r = thinking_accuracy r - base_accuracy r
           \<and> relative_improvement r =
               (if 0 < base_accuracy r
                then (thinking_accuracy r - base_accuracy r) / base_accuracy r else 0)"
    by blast
  have "(\<exists>b bs t ts.
                 select_rows df (imp_dataset r) (base_model r) = b # bs
                 \<and> select_rows df (imp_dataset r) (base_model r @ ''--thinking'') = t # ts
                 \<and> base_accuracy r = total_accuracy b
                 \<and> thinking_accuracy r = total_accuracy t)
              \<and> improvement r = thinking_accuracy r - base_accuracy r
              \<and> (0 < base_accuracy r \<longrightarrow>
                   relative_improvement r =
                     (thinking_accuracy r - base_accuracy r) / base_accuracy r)
              \<and> (base_accuracy r = 0 \<longrightarrow> relative_improvement r = 0)"
    if "r \<in> set rows" for r
  proof -
    from rows(2) that obtain b bs t ts where
      "select_rows df (imp_dataset r) (base_model r) = b # bs"
      "select_rows df (imp_dataset r) (base_model r @ ''--thinking'') = t # ts"
      "base_accuracy r = total_accuracy b"
      "thinking_accuracy r = total_accuracy t"
      "improvement r = thinking_accuracy r - base_accuracy r"
      "relative_improvement r =
               (if 0 < base_accuracy r
                then (thinking_accuracy r - base_accuracy r) / base_accuracy r else 0)"
      by blast
    then show ?thesis by auto
  qed
  with rows(1) show "\<exists>rows. thinking_improvements df = Inr rows
        \<and> (\<forall>r \<in> set rows.
              (\<exists>b bs t ts.
                 select_rows df (imp_dataset r) (base_model r) = b # bs
                 \<and> select_rows df (imp_dataset r) (base_model r @ ''--thinking'') = t # ts
                 \<and> base_accuracy r = total_accuracy b
                 \<and> thinking_accuracy r = total_accuracy t)
              \<and> improvement r = thinking_accuracy r - base_accuracy r
              \<and> (0 < base_accuracy r \<longrightarrow>
                   relative_improvement r =
                     (thinking_accuracy r - base_accuracy r) / base_accuracy r)
              \<and> (base_accuracy r = 0 \<longrightarrow> relative_improvement r = 0))"
    by blast
qed

theorem relative_improvement_guarded_witness:
  "thinking_improvements
      [\<lparr>model = ''m'', dataset = ''sf'', family = ''other'', company = ''other'',
         is_thinking = False, exact_accuracy = 0, mostly_accuracy = 0,
         total_accuracy = 0, total_samples = 10\<rparr>,
       \<lparr>model = ''m--thinking'', dataset = ''sf'', family = ''other'', company = ''other'',
         is_thinking = True, exact_accuracy = 1/2, mostly_accuracy = 0,
         total_accuracy = 1/2, total_samples = 10\<rparr>] =
    Inr [\<lparr>imp_dataset = ''sf'', base_model = ''m'', base_accuracy = 0,
         thinking_accuracy = 1/2, improvement = 1/2, relative_improvement = 0\<rparr>]
   \<and> 0 < (1/4 :: rat) \<and> relative_of (1/2) (1/4) = Inr 2"
proof -
  let ?df = "[\<lparr>model = ''m'', dataset = ''sf'', family = ''other'', company = ''other'',
         is_thinking = False, exact_accuracy = 0, mostly_accuracy = 0,
         total_accuracy = 0, total_samples = 10\<rparr>,
       \<lparr>model = ''m--thinking'', dataset = ''sf'', family = ''other'', company = ''other'',
         is_thinking = True, exact_accuracy = 1/2, mostly_accuracy = 0,
         total_accuracy = 1/2, total_samples = 10\<rparr>]"
  let ?r = "\<lparr>imp_dataset = ''sf'', base_model = ''m'', base_accuracy = 0,
         thinking_accuracy = 1/2, improvement = 1/2, relative_improvement = 0\<rparr>"
  have ev: "map (\<lambda>r. (imp_dataset r, base_model r, base_accuracy r, thinking_accuracy r))
      (case thinking_improvements ?df of Inr rows \<Rightarrow> rows | Inl e \<Rightarrow> []) =
      [(''sf'', ''m'', 0, 1/2)]"
    by code_simp
  note th = relative_improvement_guarded [of "1/2" "1/4" ?df]
  from th obtain rows where rows: "thinking_improvements ?df = Inr rows"
    "\<forall>r \<in> set rows. improvement r = thinking_accuracy r - base_accuracy r
        \<and> (base_accuracy r = 0 \<longrightarrow> relative_improvement r = 0)"
    by blast
  from ev rows(1) obtain r where r: "rows = [r]" "imp_dataset r = ''sf''" "base_model r = ''m''"
    "base_accuracy r = 0" "thinking_accuracy r = 1/2"
    by auto
  from rows(2) r have "improvement r = 1/2" "relative_improvement r = 0" by auto
  with r have "r = ?r" by simp
  with rows(1) r(1) have a: "thinking_improvements ?df = Inr [?r]" by simp
  from th have "relative_of (1/2) (1/4) = Inr (if 0 < (1/4 :: rat) then (1/2) / (1/4) else 0)"
    by blast
  then have b: "relative_of (1/2) (1/4) = Inr 2" by simp
  from a b show ?thesis by simp
qed

subsection \<open>The improvement of the literal pair\<close>


lemma replace_opus:
  "str_replace ''--thinking'' [] ''claude-opus-4-20250514'' = ''claude-opus-4-20250514''"
  by code_simp

lemma results_items_dataset:
  "results_items ds d = Inr rs \<Longrightarrow> r \<in> set rs \<Longrightarrow> dataset r = ds"
proof (induction d arbitrary: rs)
  case Nil
  then show ?case by simp
next
  case (Cons p d)
  from Cons.prems(1) obtain r0 rs0 where s: "results_row ds (fst p) (snd p) = Inr r0"
    "results_items ds d = Inr rs0" "rs = r0 # rs0"
    by (auto split: sum.splits)
  from Cons.prems(2) s(3) consider "r = r0" | "r \<in> set rs0" by auto
  then show ?case
  proof cases
    case 1
    with results_row_fields(2) [OF s(1)] show ?thesis by simp
  next
    case 2
    from Cons.IH [OF s(2) this] show ?thesis .
  qed
qed

lemma results_items_first:
  "results_items ds d = Inr rs \<Longrightarrow> map_of d m = Some data \<Longrightarrow>
     \<exists>r rest. filter (\<lambda>r. model r = m) rs = r # rest \<and> results_row ds m data = Inr r"
proof (induction d arbitrary: rs)
  case Nil
  then show ?case by simp
next
  case (Cons p d)
  from Cons.prems(1) obtain r0 rs0 where s: "results_row ds (fst p) (snd p) = Inr r0"
    "results_items ds d = Inr rs0" "rs = r0 # rs0"
    by (auto split: sum.splits)
  note m0 = results_row_fields(1) [OF s(1)]
  show ?case
  proof (cases "fst p = m")
    case True
    with Cons.prems(2) have "snd p = data" by (cases p) simp
    with True s(1,3) m0 show ?thesis by simp
  next
    case False
    with Cons.prems(2) have "map_of d m = Some data" by (cases p) simp
    from Cons.IH [OF s(2) this] False s(3) m0 show ?thesis by simp
  qed
qed

lemma results_split:
  assumes "results ed = Inr df"
  shows "\<exists>dsf dca rsf rca. getitem ed ''sf'' = Inr dsf \<and> getitem ed ''ca'' = Inr dca
     \<and> results_items ''sf'' dsf = Inr rsf \<and> results_items ''ca'' dca = Inr rca
     \<and> df = rsf @ rca"
  using assms unfolding results_def by (auto split: sum.splits)

lemma select_rows_ca:
  assumes "results_items ''sf'' dsf = Inr rsf" and "results_items ''ca'' dca = Inr rca"
  shows "select_rows (rsf @ rca) ''ca'' m = filter (\<lambda>r. model r = m) rca"
proof -
  have 1: "filter (\<lambda>r. dataset r = ''ca'' \<and> model r = m) rsf = []"
    using results_items_dataset [OF assms(1)] by (auto simp: filter_empty_conv)
  have 2: "filter (\<lambda>r. dataset r = ''ca'' \<and> model r = m) rca = filter (\<lambda>r. model r = m) rca"
    using results_items_dataset [OF assms(2)] by (auto intro: filter_cong)
  show ?thesis by (simp add: select_rows_def 1 2)
qed

lemma opus_ca_in_block:
  "map_of (rev (snd (thinking_results ! 1))) ''claude-opus-4-20250514--thinking'' =
     Some [(''totalSamples'', 50), (''exactlyCorrect'', 26), (''mostlyCorrect'', 1),
           (''exactAccuracy'', 0.52), (''mostlyAccuracy'', 0.02), (''totalAccuracy'', 0.54)]"
  by (simp add: thinking_results_def)

lemma opus_base_not_in_block:
  "map_of (rev (snd (thinking_results ! 1))) ''claude-opus-4-20250514'' = None"
  by (simp add: thinking_results_def)

lemma opus_ca_total:
  "get_total_accuracy
     [(''totalSamples'', 50), (''exactlyCorrect'', 26), (''mostlyCorrect'', 1),
      (''exactAccuracy'', 0.52), (''mostlyAccuracy'', 0.02), (''totalAccuracy'', 0.54)] = Inr 0.54"
  by (simp add: get_total_accuracy_def getitem_def dict_get_def)

lemma improvement_row_fields:
  assumes "improvement_of df ds base = Inr (Some r)"
  shows "imp_dataset r = ds" and "base_model r = base"
  using improvement_of_Some [OF assms] by auto

lemma thinking_improvements_pair:
  assumes "ds = ''sf'' \<or> ds = ''ca''" and "base \<in> set (models_in_dataset df ds)"
    and "improvement_of df ds base = Inr (Some x)"
  shows "\<exists>imps. thinking_improvements df = Inr imps \<and> x \<in> set imps
     \<and> (\<forall>r \<in> set imps. imp_dataset r = ds \<and> base_model r = base \<longrightarrow> r = x)"
proof -
  from improvements_loop_total [of df "[''sf'', ''ca'']"] obtain imps where imps:
    "thinking_improvements df = Inr imps"
    "\<forall>r \<in> set imps. \<exists>ds \<in> set [''sf'', ''ca'']. \<exists>base \<in> set (models_in_dataset df ds).
           improvement_of df ds base = Inr (Some r)"
    "\<forall>ds \<in> set [''sf'', ''ca'']. \<forall>base \<in> set (models_in_dataset df ds). \<forall>r.
           improvement_of df ds base = Inr (Some r) \<longrightarrow> r \<in> set imps"
    unfolding thinking_improvements_def by blast
  from assms(1) have "ds \<in> set [''sf'', ''ca'']" by auto
  with imps(3) assms(2,3) have mem: "x \<in> set imps" by blast
  have "r = x" if "r \<in> set imps" "imp_dataset r = ds \<and> base_model r = base" for r
  proof -
    from imps(2) that(1) obtain ds' base' where "improvement_of df ds' base' = Inr (Some r)"
      by blast
    with improvement_row_fields [OF this] that(2) have "improvement_of df ds base = Inr (Some r)"
      by simp
    with assms(3) show ?thesis by simp
  qed
  with imps(1) mem show ?thesis by blast
qed

text \<open>
  Claim C10, as the code has it. With the base record of \<open>claude-opus-4-20250514\<close> in the
  \<open>ca\<close> dataset of the loaded file and \<open>b\<close> the total accuracy derived from it, the pass
  returns, it holds a row for the pair in \<open>ca\<close>, and every row it holds for the pair has
  base accuracy \<open>b\<close>, thinking accuracy 0.54 and improvement \<open>0.54 - b\<close>. The improvement is
  strictly positive exactly when \<open>b < 0.54\<close>.
\<close>

theorem opus_ca_improvement:
  assumes "merge_thinking loaded = Inr ed" and "results ed = Inr df"
    and "getitem loaded ''ca'' = Inr d"
    and "map_of d ''claude-opus-4-20250514'' = Some data"
    and "get_total_accuracy data = Inr b"
  shows "\<exists>imps. thinking_improvements df = Inr imps
     \<and> (\<exists>r \<in> set imps. imp_dataset r = ''ca'' \<and> base_model r = ''claude-opus-4-20250514'')
     \<and> (\<forall>r \<in> set imps. imp_dataset r = ''ca'' \<and> base_model r = ''claude-opus-4-20250514'' \<longrightarrow>
           base_accuracy r = b \<and> thinking_accuracy r = 0.54 \<and> improvement r = 0.54 - b
           \<and> (0 < improvement r) = (b < 0.54))"
proof -
  let ?base = "''claude-opus-4-20250514''"
  let ?lit = "[(''totalSamples'', 50), (''exactlyCorrect'', 26), (''mostlyCorrect'', 1),
      (''exactAccuracy'', 0.52), (''mostlyAccuracy'', 0.02), (''totalAccuracy'', 0.54 :: rat)]"
  from merged_ca [OF assms(1)] assms(3)
  have ca: "getitem ed ''ca'' = Inr (dict_update d (snd (thinking_results ! 1)))"
    by (auto simp: getitem_Inr)
  let ?dca = "dict_update d (snd (thinking_results ! 1))"
  from results_split [OF assms(2)] ca obtain dsf rsf rca where
    s: "results_items ''sf'' dsf = Inr rsf" "results_items ''ca'' ?dca = Inr rca" "df = rsf @ rca"
    by auto
  have mb: "map_of ?dca ?base = Some data"
    unfolding map_of_dict_update opus_base_not_in_block using assms(4) by simp
  have mt: "map_of ?dca (?base @ ''--thinking'') = Some ?lit"
    unfolding map_of_dict_update using opus_ca_in_block by simp
  from results_items_first [OF s(2) mb] obtain rb restb where
    rb: "filter (\<lambda>r. model r = ?base) rca = rb # restb" "results_row ''ca'' ?base data = Inr rb"
    by blast
  from results_items_first [OF s(2) mt] obtain rt restt where
    rt: "filter (\<lambda>r. model r = ?base @ ''--thinking'') rca = rt # restt"
      "results_row ''ca'' (?base @ ''--thinking'') ?lit = Inr rt"
    by blast
  have tb: "total_accuracy rb = b"
    using results_row_fields(3) [OF rb(2)] assms(5) by simp
  have tt: "total_accuracy rt = 0.54"
    using results_row_fields(3) [OF rt(2)] opus_ca_total by simp
  have sb: "select_rows df ''ca'' ?base = rb # restb"
    unfolding s(3) select_rows_ca [OF s(1,2)] by (rule rb(1))
  have st: "select_rows df ''ca'' (?base @ ''--thinking'') = rt # restt"
    unfolding s(3) select_rows_ca [OF s(1,2)] by (rule rt(1))
  define x where "x = \<lparr>imp_dataset = ''ca'', base_model = ?base,
                          base_accuracy = total_accuracy rb,
                          thinking_accuracy = total_accuracy rt,
                          improvement = total_accuracy rt - total_accuracy rb,
                          relative_improvement =
                            (if 0 < total_accuracy rb
                             then (total_accuracy rt - total_accuracy rb) / total_accuracy rb
                             else 0)\<rparr>"
  have io: "improvement_of df ''ca'' ?base = Inr (Some x)"
    unfolding improvement_of_eq sb st x_def by simp
  have "rb \<in> set (filter (\<lambda>r. model r = ?base) rca)"
    unfolding rb(1) by simp
  then have rbm: "rb \<in> set rca" "model rb = ?base" by auto
  with results_items_dataset [OF s(2)] have "dataset rb = ''ca''" by blast
  with rbm s(3) have "rb \<in> set (filter (\<lambda>r. dataset r = ''ca'') df)" by simp
  then have "str_replace ''--thinking'' [] (model rb) \<in> set (models_in_dataset df ''ca'')"
    unfolding models_in_dataset_def by (simp only: set_remdups set_map image_eqI)
  then have inm: "?base \<in> set (models_in_dataset df ''ca'')"
    unfolding rbm(2) replace_opus .
  from thinking_improvements_pair [OF _ inm io] obtain imps where imps:
    "thinking_improvements df = Inr imps" "x \<in> set imps"
    "\<forall>r \<in> set imps. imp_dataset r = ''ca'' \<and> base_model r = ?base \<longrightarrow> r = x"
    by blast
  have xf: "imp_dataset x = ''ca''" "base_model x = ?base" "base_accuracy x = b"
    "thinking_accuracy x = 0.54" "improvement x = 0.54 - b"
    unfolding x_def by (simp_all add: tb tt)
  have pos: "(0 < improvement x) = (b < 0.54)"
    unfolding xf(5) by auto
  from imps(2) xf(1,2) have ex: "\<exists>r \<in> set imps. imp_dataset r = ''ca'' \<and> base_model r = ?base"
    by blast
  from imps(3) xf pos have all: "\<forall>r \<in> set imps. imp_dataset r = ''ca'' \<and> base_model r = ?base \<longrightarrow>
           base_accuracy r = b \<and> thinking_accuracy r = 0.54 \<and> improvement r = 0.54 - b
           \<and> (0 < improvement r) = (b < 0.54)"
    by blast
  from imps(1) ex all show ?thesis by blast
qed

theorem opus_ca_improvement_witness:
  "getitem ([(''sf'', []),
        (''ca'',
           [(''claude-opus-4-20250514'',
             [(''totalSamples'', 50), (''exactlyCorrect'', 20), (''mostlyCorrect'', 0),
              (''exactAccuracy'', 0.4), (''mostlyAccuracy'', 0.0)])])] :: eval_data) ''ca'' =
     Inr [(''claude-opus-4-20250514'',
             [(''totalSamples'', 50), (''exactlyCorrect'', 20), (''mostlyCorrect'', 0),
              (''exactAccuracy'', 0.4), (''mostlyAccuracy'', 0.0)])]
   \<and> map_of ([(''claude-opus-4-20250514'',
             [(''totalSamples'', 50), (''exactlyCorrect'', 20), (''mostlyCorrect'', 0),
              (''exactAccuracy'', 0.4), (''mostlyAccuracy'', 0.0)])] :: metrics dict) ''claude-opus-4-20250514'' =
     Some [(''totalSamples'', 50), (''exactlyCorrect'', 20), (''mostlyCorrect'', 0),
              (''exactAccuracy'', 0.4), (''mostlyAccuracy'', 0.0)]
   \<and> get_total_accuracy [(''totalSamples'', 50), (''exactlyCorrect'', 20), (''mostlyCorrect'', 0),
              (''exactAccuracy'', 0.4), (''mostlyAccuracy'', 0.0)] = Inr (2/5)
   \<and> (\<exists>ed df imps. merge_thinking [(''sf'', []),
        (''ca'',
           [(''claude-opus-4-20250514'',
             [(''totalSamples'', 50), (''exactlyCorrect'', 20), (''mostlyCorrect'', 0),
              (''exactAccuracy'', 0.4), (''mostlyAccuracy'', 0.0)])])] = Inr ed
        \<and> results ed = Inr df \<and> thinking_improvements df = Inr imps
        \<and> (\<exists>r \<in> set imps. imp_dataset r = ''ca'' \<and> base_model r = ''claude-opus-4-20250514''
              \<and> improvement r = 7/50 \<and> 0 < improvement r))"
proof -
  let ?data = "[(''totalSamples'', 50), (''exactlyCorrect'', 20), (''mostlyCorrect'', 0),
              (''exactAccuracy'', 0.4), (''mostlyAccuracy'', 0.0)] :: metrics"
  let ?d = "[(''claude-opus-4-20250514'', ?data)]"
  let ?l = "[(''sf'', []), (''ca'', ?d)]"
  have h3: "getitem ?l ''ca'' = Inr ?d"
    by (simp add: getitem_def)
  have h4: "map_of ?d ''claude-opus-4-20250514'' = Some ?data"
    by simp
  have h5: "get_total_accuracy ?data = Inr (2/5)"
    by (simp add: get_total_accuracy_def getitem_def dict_get_def)
  have "(case merge_thinking ?l of
           Inr ed \<Rightarrow> (case results ed of Inr df \<Rightarrow> True | Inl e \<Rightarrow> False)
         | Inl e \<Rightarrow> False)"
    by code_simp
  then obtain ed df where h1: "merge_thinking ?l = Inr ed" and h2: "results ed = Inr df"
    by (auto split: sum.splits)
  from opus_ca_improvement [OF h1 h2 h3 h4 h5] obtain imps where imps:
    "thinking_improvements df = Inr imps"
    "\<exists>r \<in> set imps. imp_dataset r = ''ca'' \<and> base_model r = ''claude-opus-4-20250514''"
    "\<forall>r \<in> set imps. imp_dataset r = ''ca'' \<and> base_model r = ''claude-opus-4-20250514'' \<longrightarrow>
           base_accuracy r = 2/5 \<and> thinking_accuracy r = 0.54 \<and> improvement r = 0.54 - 2/5
           \<and> (0 < improvement r) = ((2/5 :: rat) < 0.54)"
    by blast
  from imps(2) obtain r where r: "r \<in> set imps" "imp_dataset r = ''ca''"
    "base_model r = ''claude-opus-4-20250514''"
    by blast
  with imps(3) have "improvement r = 0.54 - 2/5" "(0 < improvement r) = ((2/5 :: rat) < 0.54)"
    by blast+
  then have "improvement r = 7/50" "0 < improvement r" by simp_all
  with r have "\<exists>r \<in> set imps. imp_dataset r = ''ca'' \<and> base_model r = ''claude-opus-4-20250514''
              \<and> improvement r = 7/50 \<and> 0 < improvement r"
    by blast
  with h1 h2 imps(1) have "\<exists>ed df imps. merge_thinking ?l = Inr ed
        \<and> results ed = Inr df \<and> thinking_improvements df = Inr imps
        \<and> (\<exists>r \<in> set imps. imp_dataset r = ''ca'' \<and> base_model r = ''claude-opus-4-20250514''
              \<and> improvement r = 7/50 \<and> 0 < improvement r)"
    by blast
  with h3 h4 h5 show ?thesis by (intro conjI)
qed

text \<open>
  Claim C10 as stated, for every loaded file that has the base record, does not hold:
  with a base record of total accuracy 0.6 the script produces the single improvement row
  of the pair in \<open>ca\<close>, and its improvement is \<open>0.54 - 0.6\<close>, which is negative.
\<close>

theorem opus_ca_improvement_not_positive:
  "map_sum id (\<lambda>rep. map (\<lambda>r. (imp_dataset r, base_model r, improvement r, 0 < improvement r))
                 (rep_improvements rep))
     (script
        [(''sf'', []),
         (''ca'',
            [(''claude-opus-4-20250514'',
                [(''totalSamples'', 50), (''exactlyCorrect'', 30), (''mostlyCorrect'', 0),
                 (''exactAccuracy'', 0.6), (''mostlyAccuracy'', 0.0),
                 (''totalAccuracy'', 0.6)])])]) =
   Inr [(''ca'', ''claude-opus-4-20250514'', - (3/50), False)]"
  by code_simp

subsection \<open>Token efficiency\<close>


lemma token_row_of_eq:
  assumes "get_total_accuracy data = Inr tot"
  shows "token_row_of ds m data =
     (case map_of data ''avgOutputTokens'' of
        None \<Rightarrow> Inr None
      | Some tk \<Rightarrow>
          Inr (Some \<lparr>tok_model = m, tok_dataset = ds, tok_family = fst (categorize_model m),
                     tok_is_thinking = snd (snd (categorize_model m)), avg_tokens = tk,
                     tok_total_accuracy = tot\<rparr>))"
  using assms
  by (auto simp: token_row_of_def has_key_def getitem_def split: prod.splits option.splits)

lemma results_items_names:
  "results_items ds d = Inr rs \<Longrightarrow>
     map (\<lambda>r. (dataset r, model r)) rs = map (\<lambda>p. (ds, fst p)) d
     \<and> (\<forall>p \<in> set d. \<exists>tot. get_total_accuracy (snd p) = Inr tot)"
proof (induction d arbitrary: rs)
  case Nil
  then show ?case by simp
next
  case (Cons p d)
  from Cons.prems(1) obtain r0 rs0 where s: "results_row ds (fst p) (snd p) = Inr r0"
    "results_items ds d = Inr rs0" "rs = r0 # rs0"
    by (auto split: sum.splits)
  from results_row_fields(1-3) [OF s(1)] Cons.IH [OF s(2)] s(3)
  show ?case by auto
qed

lemma token_items_spec:
  assumes "\<forall>p \<in> set d. \<exists>tot. get_total_accuracy (snd p) = Inr tot"
  shows "\<exists>ts. token_items ds d = Inr ts
     \<and> map (\<lambda>t. (tok_dataset t, tok_model t)) ts =
         map (\<lambda>p. (ds, fst p)) (filter (\<lambda>p. has_key (snd p) ''avgOutputTokens'') d)
     \<and> (\<forall>t \<in> set ts. tok_dataset t = ds
          \<and> (\<exists>data. (tok_model t, data) \<in> set d
                \<and> getitem data ''avgOutputTokens'' = Inr (avg_tokens t)
                \<and> get_total_accuracy data = Inr (tok_total_accuracy t)))"
  using assms
proof (induction d)
  case Nil
  then show ?case by simp
next
  case (Cons p d)
  from Cons.prems obtain tot where tot: "get_total_accuracy (snd p) = Inr tot" by auto
  from Cons.prems have "\<forall>p \<in> set d. \<exists>tot. get_total_accuracy (snd p) = Inr tot" by simp
  from Cons.IH [OF this] obtain ts where ts: "token_items ds d = Inr ts"
    "map (\<lambda>t. (tok_dataset t, tok_model t)) ts =
         map (\<lambda>p. (ds, fst p)) (filter (\<lambda>p. has_key (snd p) ''avgOutputTokens'') d)"
    "\<forall>t \<in> set ts. tok_dataset t = ds
          \<and> (\<exists>data. (tok_model t, data) \<in> set d
                \<and> getitem data ''avgOutputTokens'' = Inr (avg_tokens t)
                \<and> get_total_accuracy data = Inr (tok_total_accuracy t))"
    by blast
  note e = token_row_of_eq [OF tot, of ds "fst p"]
  show ?case
  proof (cases "map_of (snd p) ''avgOutputTokens''")
    case None
    then have hk: "\<not> has_key (snd p) ''avgOutputTokens''" by (simp add: has_key_def)
    have 1: "token_items ds (p # d) = Inr ts"
      by (simp add: e None ts(1))
    have 3: "\<forall>t \<in> set ts. tok_dataset t = ds
          \<and> (\<exists>data. (tok_model t, data) \<in> set (p # d)
                \<and> getitem data ''avgOutputTokens'' = Inr (avg_tokens t)
                \<and> get_total_accuracy data = Inr (tok_total_accuracy t))"
      using ts(3) by (simp only: list.set insert_iff) blast
    from 1 ts(2) hk 3 show ?thesis by simp
  next
    case (Some tk)
    then have hk: "has_key (snd p) ''avgOutputTokens''" by (simp add: has_key_def)
    define t0 where "t0 = \<lparr>tok_model = fst p, tok_dataset = ds,
        tok_family = fst (categorize_model (fst p)),
        tok_is_thinking = snd (snd (categorize_model (fst p))), avg_tokens = tk,
        tok_total_accuracy = tot\<rparr>"
    have 1: "token_items ds (p # d) = Inr (t0 # ts)"
      by (simp add: e Some ts(1) t0_def)
    have 2: "map (\<lambda>t. (tok_dataset t, tok_model t)) (t0 # ts) =
         map (\<lambda>p. (ds, fst p)) (filter (\<lambda>p. has_key (snd p) ''avgOutputTokens'') (p # d))"
      using ts(2) hk by (simp add: t0_def)
    have t0: "tok_dataset t0 = ds
          \<and> (\<exists>data. (tok_model t0, data) \<in> set (p # d)
                \<and> getitem data ''avgOutputTokens'' = Inr (avg_tokens t0)
                \<and> get_total_accuracy data = Inr (tok_total_accuracy t0))"
    proof -
      have "(tok_model t0, snd p) \<in> set (p # d)" by (simp add: t0_def)
      moreover have "getitem (snd p) ''avgOutputTokens'' = Inr (avg_tokens t0)"
        by (simp add: t0_def getitem_def Some)
      moreover have "get_total_accuracy (snd p) = Inr (tok_total_accuracy t0)"
        by (simp add: t0_def tot)
      moreover have "tok_dataset t0 = ds" by (simp add: t0_def)
      ultimately show ?thesis by blast
    qed
    have 3: "\<forall>t \<in> set (t0 # ts). tok_dataset t = ds
          \<and> (\<exists>data. (tok_model t, data) \<in> set (p # d)
                \<and> getitem data ''avgOutputTokens'' = Inr (avg_tokens t)
                \<and> get_total_accuracy data = Inr (tok_total_accuracy t))"
    proof
      fix t assume "t \<in> set (t0 # ts)"
      then consider "t = t0" | "t \<in> set ts" by auto
      then show "tok_dataset t = ds
          \<and> (\<exists>data. (tok_model t, data) \<in> set (p # d)
                \<and> getitem data ''avgOutputTokens'' = Inr (avg_tokens t)
                \<and> get_total_accuracy data = Inr (tok_total_accuracy t))"
      proof cases
        case 1
        with t0 show ?thesis by simp
      next
        case 2
        with ts(3) show ?thesis by (simp only: list.set insert_iff) blast
      qed
    qed
    from 1 2 3 show ?thesis by blast
  qed
qed

lemma efficiency_eq:
  "efficiency t =
     (if avg_tokens t \<noteq> 0 then Fin (tok_total_accuracy t / avg_tokens t * 1000)
      else if tok_total_accuracy t = 0 then NaN
      else if 0 < tok_total_accuracy t then PosInf else NegInf)"
  by (simp add: efficiency_def pd_truediv_def pd_mul_def)

text \<open>
  Claim C6. Once the flattened table has been built, the token pass returns. Its rows are
  the records that have \<open>avgOutputTokens\<close>, in order, dataset by dataset, while the
  flattened table keeps a row for every record, with or without token data. Each token row
  carries the token count and the derived total accuracy of its record, and when the token
  count is not zero its efficiency is the total accuracy divided by the token count, times
  1000.
\<close>

theorem token_pass_excludes_records_without_tokens:
  assumes "results ed = Inr df"
    and "getitem ed ''sf'' = Inr dsf" and "getitem ed ''ca'' = Inr dca"
  shows "\<exists>toks. token_data ed = Inr toks
     \<and> map (\<lambda>t. (tok_dataset t, tok_model t)) toks =
         map (\<lambda>p. (''sf'', fst p)) (filter (\<lambda>p. has_key (snd p) ''avgOutputTokens'') dsf)
         @ map (\<lambda>p. (''ca'', fst p)) (filter (\<lambda>p. has_key (snd p) ''avgOutputTokens'') dca)
     \<and> map (\<lambda>r. (dataset r, model r)) df =
         map (\<lambda>p. (''sf'', fst p)) dsf @ map (\<lambda>p. (''ca'', fst p)) dca
     \<and> (\<forall>t \<in> set toks.
           (\<exists>data. (tok_model t, data) \<in> set (if tok_dataset t = ''sf'' then dsf else dca)
              \<and> getitem data ''avgOutputTokens'' = Inr (avg_tokens t)
              \<and> get_total_accuracy data = Inr (tok_total_accuracy t))
           \<and> (avg_tokens t \<noteq> 0 \<longrightarrow>
                efficiency t = Fin (tok_total_accuracy t / avg_tokens t * 1000)))"
proof -
  from results_split [OF assms(1)] assms(2,3) obtain rsf rca where
    s: "results_items ''sf'' dsf = Inr rsf" "results_items ''ca'' dca = Inr rca" "df = rsf @ rca"
    by auto
  note nsf = results_items_names [OF s(1)]
  note nca = results_items_names [OF s(2)]
  from token_items_spec [OF conjunct2 [OF nsf], of "''sf''"] obtain tsf where tsf:
    "token_items ''sf'' dsf = Inr tsf"
    "map (\<lambda>t. (tok_dataset t, tok_model t)) tsf =
         map (\<lambda>p. (''sf'', fst p)) (filter (\<lambda>p. has_key (snd p) ''avgOutputTokens'') dsf)"
    "\<forall>t \<in> set tsf. tok_dataset t = ''sf''
          \<and> (\<exists>data. (tok_model t, data) \<in> set dsf
                \<and> getitem data ''avgOutputTokens'' = Inr (avg_tokens t)
                \<and> get_total_accuracy data = Inr (tok_total_accuracy t))"
    by blast
  from token_items_spec [OF conjunct2 [OF nca], of "''ca''"] obtain tca where tca:
    "token_items ''ca'' dca = Inr tca"
    "map (\<lambda>t. (tok_dataset t, tok_model t)) tca =
         map (\<lambda>p. (''ca'', fst p)) (filter (\<lambda>p. has_key (snd p) ''avgOutputTokens'') dca)"
    "\<forall>t \<in> set tca. tok_dataset t = ''ca''
          \<and> (\<exists>data. (tok_model t, data) \<in> set dca
                \<and> getitem data ''avgOutputTokens'' = Inr (avg_tokens t)
                \<and> get_total_accuracy data = Inr (tok_total_accuracy t))"
    by blast
  have 1: "token_data ed = Inr (tsf @ tca)"
    by (simp add: token_data_def assms(2,3) tsf(1) tca(1))
  have 2: "map (\<lambda>t. (tok_dataset t, tok_model t)) (tsf @ tca) =
         map (\<lambda>p. (''sf'', fst p)) (filter (\<lambda>p. has_key (snd p) ''avgOutputTokens'') dsf)
         @ map (\<lambda>p. (''ca'', fst p)) (filter (\<lambda>p. has_key (snd p) ''avgOutputTokens'') dca)"
    by (simp add: tsf(2) tca(2))
  have 3: "map (\<lambda>r. (dataset r, model r)) df =
         map (\<lambda>p. (''sf'', fst p)) dsf @ map (\<lambda>p. (''ca'', fst p)) dca"
    unfolding s(3) using nsf nca by simp
  have 4: "(\<exists>data. (tok_model t, data) \<in> set (if tok_dataset t = ''sf'' then dsf else dca)
              \<and> getitem data ''avgOutputTokens'' = Inr (avg_tokens t)
              \<and> get_total_accuracy data = Inr (tok_total_accuracy t))
           \<and> (avg_tokens t \<noteq> 0 \<longrightarrow>
                efficiency t = Fin (tok_total_accuracy t / avg_tokens t * 1000))"
    if "t \<in> set (tsf @ tca)" for t
  proof -
    have eff: "avg_tokens t \<noteq> 0 \<longrightarrow>
                efficiency t = Fin (tok_total_accuracy t / avg_tokens t * 1000)"
      by (simp add: efficiency_eq)
    from that consider "t \<in> set tsf" | "t \<in> set tca" by auto
    then show ?thesis
    proof cases
      case 1
      with tsf(3) eff show ?thesis by auto
    next
      case 2
      with tca(3) have "tok_dataset t = ''ca''"
        "\<exists>data. (tok_model t, data) \<in> set dca
                \<and> getitem data ''avgOutputTokens'' = Inr (avg_tokens t)
                \<and> get_total_accuracy data = Inr (tok_total_accuracy t)"
        by blast+
      with eff show ?thesis by simp
    qed
  qed
  from 1 2 3 4 show ?thesis by blast
qed


theorem token_pass_excludes_records_without_tokens_witness:
  "getitem
       ([(''sf'',
           [(''gpt-4o'',
               [(''totalSamples'', 50), (''exactAccuracy'', 0.4), (''mostlyAccuracy'', 0.1),
                (''avgOutputTokens'', 200)]),
            (''llama-3'',
               [(''totalSamples'', 50), (''exactAccuracy'', 0.3), (''mostlyAccuracy'', 0.0)])]),
          (''ca'', [])] :: eval_data) ''sf'' =
     Inr [(''gpt-4o'',
             [(''totalSamples'', 50), (''exactAccuracy'', 0.4), (''mostlyAccuracy'', 0.1),
              (''avgOutputTokens'', 200)]),
          (''llama-3'',
             [(''totalSamples'', 50), (''exactAccuracy'', 0.3), (''mostlyAccuracy'', 0.0)])]
   \<and> getitem
       ([(''sf'',
           [(''gpt-4o'',
               [(''totalSamples'', 50), (''exactAccuracy'', 0.4), (''mostlyAccuracy'', 0.1),
                (''avgOutputTokens'', 200)]),
            (''llama-3'',
               [(''totalSamples'', 50), (''exactAccuracy'', 0.3), (''mostlyAccuracy'', 0.0)])]),
          (''ca'', [])] :: eval_data) ''ca'' = Inr []
   \<and> (\<exists>df. results
       [(''sf'',
           [(''gpt-4o'',
               [(''totalSamples'', 50), (''exactAccuracy'', 0.4), (''mostlyAccuracy'', 0.1),
                (''avgOutputTokens'', 200)]),
            (''llama-3'',
               [(''totalSamples'', 50), (''exactAccuracy'', 0.3), (''mostlyAccuracy'', 0.0)])]),
          (''ca'', [])] = Inr df \<and> map model df = [''gpt-4o'', ''llama-3''])
   \<and> token_data
       [(''sf'',
           [(''gpt-4o'',
               [(''totalSamples'', 50), (''exactAccuracy'', 0.4), (''mostlyAccuracy'', 0.1),
                (''avgOutputTokens'', 200)]),
            (''llama-3'',
               [(''totalSamples'', 50), (''exactAccuracy'', 0.3), (''mostlyAccuracy'', 0.0)])]),
          (''ca'', [])] =
     Inr [\<lparr>tok_model = ''gpt-4o'', tok_dataset = ''sf'', tok_family = ''gpt'',
         tok_is_thinking = False, avg_tokens = 200, tok_total_accuracy = 1/2\<rparr>]
   \<and> efficiency
        \<lparr>tok_model = ''gpt-4o'', tok_dataset = ''sf'', tok_family = ''gpt'',
         tok_is_thinking = False, avg_tokens = 200, tok_total_accuracy = 1/2\<rparr> = Fin (5/2)"
proof -
  let ?dsf = "[(''gpt-4o'',
             [(''totalSamples'', 50), (''exactAccuracy'', 0.4), (''mostlyAccuracy'', 0.1),
              (''avgOutputTokens'', 200)]),
          (''llama-3'',
             [(''totalSamples'', 50), (''exactAccuracy'', 0.3), (''mostlyAccuracy'', 0.0)])] :: metrics dict"
  let ?ed = "[(''sf'', ?dsf), (''ca'', [])] :: eval_data"
  let ?t = "\<lparr>tok_model = ''gpt-4o'', tok_dataset = ''sf'', tok_family = ''gpt'',
         tok_is_thinking = False, avg_tokens = 200, tok_total_accuracy = 1/2\<rparr>"
  have h2: "getitem ?ed ''sf'' = Inr ?dsf" by (simp add: getitem_def)
  have h3: "getitem ?ed ''ca'' = Inr []" by (simp add: getitem_def)
  have "(case results ?ed of Inr df \<Rightarrow> True | Inl e \<Rightarrow> False)"
    by code_simp
  then obtain df where h1: "results ?ed = Inr df" by (auto split: sum.splits)
  have ev: "token_data ?ed = Inr [?t]"
    by code_simp
  from token_pass_excludes_records_without_tokens [OF h1 h2 h3] obtain toks where
    toks: "token_data ?ed = Inr toks
     \<and> map (\<lambda>t. (tok_dataset t, tok_model t)) toks =
         map (\<lambda>p. (''sf'', fst p)) (filter (\<lambda>p. has_key (snd p) ''avgOutputTokens'') ?dsf)
         @ map (\<lambda>p. (''ca'', fst p)) (filter (\<lambda>p. has_key (snd p) ''avgOutputTokens'') ([] :: metrics dict))
     \<and> map (\<lambda>r. (dataset r, model r)) df =
         map (\<lambda>p. (''sf'', fst p)) ?dsf @ map (\<lambda>p. (''ca'', fst p)) ([] :: metrics dict)
     \<and> (\<forall>t \<in> set toks.
           (\<exists>data. (tok_model t, data) \<in> set (if tok_dataset t = ''sf'' then ?dsf else ([] :: metrics dict))
              \<and> getitem data ''avgOutputTokens'' = Inr (avg_tokens t)
              \<and> get_total_accuracy data = Inr (tok_total_accuracy t))
           \<and> (avg_tokens t \<noteq> 0 \<longrightarrow>
                efficiency t = Fin (tok_total_accuracy t / avg_tokens t * 1000)))"
    by (rule exE)
  note t1 = toks [THEN conjunct1]
  note t3 = toks [THEN conjunct2, THEN conjunct2, THEN conjunct1]
  note t4 = toks [THEN conjunct2, THEN conjunct2, THEN conjunct2]
  from t1 have "toks = [?t]" unfolding ev by (simp only: sum.inject)
  then have "?t \<in> set toks" by (simp only: list.set insert_iff simp_thms)
  from t4 [rule_format, OF this, THEN conjunct2]
  have "avg_tokens ?t \<noteq> 0 \<longrightarrow>
      efficiency ?t = Fin (tok_total_accuracy ?t / avg_tokens ?t * 1000)" .
  then have eff: "efficiency ?t = Fin (5/2)" by simp
  have rhs: "map (\<lambda>p. (''sf'', fst p)) ?dsf @ map (\<lambda>p. (''ca'', fst p)) ([] :: metrics dict) =
      [(''sf'', ''gpt-4o''), (''sf'', ''llama-3'')]"
    by simp
  have "map model df = map snd (map (\<lambda>r. (dataset r, model r)) df)"
    by (simp add: comp_def)
  also have "\<dots> = map snd [(''sf'', ''gpt-4o''), (''sf'', ''llama-3'')]"
    by (simp only: t3 rhs)
  also have "\<dots> = [''gpt-4o'', ''llama-3'']"
    by simp
  finally have m: "map model df = [''gpt-4o'', ''llama-3'']" .
  have r: "\<exists>df. results ?ed = Inr df \<and> map model df = [''gpt-4o'', ''llama-3'']"
    by (rule exI [of _ df]) (rule conjI [OF h1 m])
  show ?thesis
    by (rule conjI [OF h2 conjI [OF h3 conjI [OF r conjI [OF ev eff]]]])
qed

end
